theory Spec2Isabelle
  imports Complex_Main
begin

section \<open>mcdns-updater: data model\<close>

text \<open>
  The program (\<^verbatim>\<open>mcdns_updater.py\<close>) probes a list of game-server nodes, scores each
  one, and publishes SRV records through the Cloudflare API. Python's \<^verbatim>\<open>str\<close> is
  modelled as \<open>string\<close>, its unbounded \<^verbatim>\<open>int\<close> as \<open>int\<close>, and its \<^verbatim>\<open>float\<close> (an IEEE 754
  double) as \<open>pyfloat\<close>: a finite double is the real number it denotes, and a division
  rounds its result to a double or overflows to an infinity.
\<close>

text \<open>\<^verbatim>\<open>class Node(BaseModel)\<close>: subdomain, host, port, bandwidth.\<close>

record node =
  subdomain :: string
  host :: string
  port :: int
  bandwidth :: int

text \<open>
  \<^verbatim>\<open>class Config(BaseModel)\<close>. Its field \<^verbatim>\<open>subdomain\<close> is named \<open>base_subdomain\<close> here,
  because a record field of that name already belongs to \<open>node\<close>.
\<close>

record config =
  api_token :: string
  zone_id :: string
  base_subdomain :: string
  nodes :: "node list"
  timeout :: real

text \<open>The exceptions the program can end with.\<close>

datatype error =
    ValueError
  | ZeroDivisionError
  | OverflowError
  | AssertionError string
  | ValidationError "string list"
  | APIError string

section \<open>Python floats\<close>

text \<open>
  The number of binary digits of a natural number (\<^verbatim>\<open>int.bit_length\<close>), and from it the
  exponent \<open>k\<close> of the binade of a positive real: \<open>2^k \<le> x < 2^(k+1)\<close>.
\<close>

fun bits :: "nat \<Rightarrow> nat" where
  "bits n = (if n = 0 then 0 else Suc (bits (n div 2)))"

declare bits.simps [simp del]

definition floor_log2 :: "real \<Rightarrow> int" where
  "floor_log2 x = (if 1 \<le> x then int (bits (nat \<lfloor>x\<rfloor>)) - 1
                   else - int (bits (nat (\<lceil>1 / x\<rceil> - 1))))"

definition pow2 :: "int \<Rightarrow> real" where
  "pow2 e = (if 0 \<le> e then 2 ^ nat e else 1 / 2 ^ nat (- e))"

text \<open>Rounding to the nearest integer, a tie going to the even one.\<close>

definition round_half_even :: "real \<Rightarrow> int" where
  "round_half_even q =
     (let f = \<lfloor>q\<rfloor>; d = q - of_int f
      in if d < 1 / 2 then f else if 1 / 2 < d then f + 1 else if even f then f else f + 1)"

text \<open>
  Doubles have 53 significant bits and exponents down to \<open>-1074\<close>: around a non-zero \<open>x\<close>
  they are the multiples of \<open>2^(quantum x)\<close>.
\<close>

definition quantum :: "real \<Rightarrow> int" where
  "quantum x = max (floor_log2 \<bar>x\<bar> - 52) (- 1074)"

text \<open>
  A Python float that is not a NaN. (A NaN arises neither from a probe nor from dividing
  a finite number by a non-zero finite one.) The order is the one Python's comparisons give them.
\<close>

datatype pyfloat = Finite real | Infinity | Neg_infinity

instantiation pyfloat :: linorder
begin

fun less_eq_pyfloat :: "pyfloat \<Rightarrow> pyfloat \<Rightarrow> bool" where
  "less_eq_pyfloat Neg_infinity y = True"
| "less_eq_pyfloat (Finite a) Neg_infinity = False"
| "less_eq_pyfloat (Finite a) (Finite b) = (a \<le> b)"
| "less_eq_pyfloat (Finite a) Infinity = True"
| "less_eq_pyfloat Infinity Infinity = True"
| "less_eq_pyfloat Infinity y = False"

definition less_pyfloat :: "pyfloat \<Rightarrow> pyfloat \<Rightarrow> bool" where
  "less_pyfloat x y = (x \<le> y \<and> \<not> y \<le> x)"

instance
proof
  fix x y z :: pyfloat
  show "(x < y) = (x \<le> y \<and> \<not> y \<le> x)"
    by (simp add: less_pyfloat_def)
  show "x \<le> x"
    by (cases x) simp_all
  show "x \<le> y \<Longrightarrow> y \<le> z \<Longrightarrow> x \<le> z"
    by (cases x; cases y; cases z) simp_all
  show "x \<le> y \<Longrightarrow> y \<le> x \<Longrightarrow> x = y"
    by (cases x; cases y) simp_all
  show "x \<le> y \<or> y \<le> x"
    by (cases x; cases y) auto
qed

end

text \<open>
  IEEE 754 round-to-nearest, ties to even: the multiple of the quantum nearest to \<open>x\<close>,
  and an infinity once that reaches \<open>2^1024\<close>.
\<close>

definition round_double :: "real \<Rightarrow> pyfloat" where
  "round_double x =
     (if x = 0 then Finite 0
      else let e = quantum x; r = of_int (round_half_even (x / pow2 e)) * pow2 e
           in if 2 ^ 1024 \<le> r then Infinity
              else if r \<le> - (2 ^ 1024) then Neg_infinity
              else Finite r)"

text \<open>The reals that are doubles: 53 bits of mantissa, exponent from \<open>-1074\<close> to \<open>971\<close>.\<close>

definition is_double :: "real \<Rightarrow> bool" where
  "is_double x = (\<exists>m e. \<bar>m\<bar> < 2 ^ 53 \<and> - 1074 \<le> e \<and> e \<le> 971 \<and> x = of_int m * pow2 e)"

text \<open>
  The conversion of an \<^verbatim>\<open>int\<close> to a float: correctly rounded, and \<^verbatim>\<open>OverflowError\<close>
  when the integer is too large for a double.
\<close>

definition int_as_double :: "int \<Rightarrow> error + real" where
  "int_as_double i = (case round_double (of_int i) of Finite a \<Rightarrow> Inr a | _ \<Rightarrow> Inl OverflowError)"

text \<open>
  \<^verbatim>\<open>i / b\<close> for an \<^verbatim>\<open>int\<close> \<open>i\<close> and a float \<open>b\<close>: the integer is converted first, then a zero
  divisor raises \<^verbatim>\<open>ZeroDivisionError\<close>, then the quotient is rounded to a double.
\<close>

definition truediv :: "int \<Rightarrow> real \<Rightarrow> error + pyfloat" where
  "truediv i b =
     (case int_as_double i of
        Inl e \<Rightarrow> Inl e
      | Inr a \<Rightarrow> if b = 0 then Inl ZeroDivisionError else Inr (round_double (a / b)))"

section \<open>Name construction\<close>

text \<open>
  \<^verbatim>\<open>str.removesuffix(suffix)\<close>: when the string ends with the non-empty suffix, the
  string without it (one occurrence only); otherwise the string itself.
\<close>

definition removesuffix :: "string \<Rightarrow> string \<Rightarrow> string" where
  "removesuffix suf s =
     (if suf \<noteq> [] \<and> length suf \<le> length s \<and> drop (length s - length suf) s = suf
      then take (length s - length suf) s else s)"

text \<open>\<^verbatim>\<open>sep.join(parts)\<close>.\<close>

fun join :: "string \<Rightarrow> string list \<Rightarrow> string" where
  "join sep [] = []"
| "join sep [p] = p"
| "join sep (p # q # ps) = p @ sep @ join sep (q # ps)"

text \<open>
  \<^verbatim>\<open>def concat_domain(*parts): return ".".join(part.removesuffix(".") for part in parts)\<close>
\<close>

definition concat_domain :: "string list \<Rightarrow> string" where
  "concat_domain parts = join ''.'' (map (removesuffix ''.'') parts)"

text \<open>Two shapes a well-formed domain name never has: two dots in a row, a dot at the end.\<close>

fun doubled_sep :: "string \<Rightarrow> bool" where
  "doubled_sep (a # b # cs) = ((a = CHR ''.'' \<and> b = CHR ''.'') \<or> doubled_sep (b # cs))"
| "doubled_sep _ = False"

definition dangling_dot :: "string \<Rightarrow> bool" where
  "dangling_dot s = (s \<noteq> [] \<and> last s = CHR ''.'')"

text \<open>
  A clean component: not empty, no dot at either end, no two dots in a row.
\<close>

definition clean :: "string \<Rightarrow> bool" where
  "clean s = (s \<noteq> [] \<and> hd s \<noteq> CHR ''.'' \<and> last s \<noteq> CHR ''.'' \<and> \<not> doubled_sep s)"

section \<open>Selection: Python's max with a key\<close>

text \<open>
  \<^verbatim>\<open>max(iterable, key=f)\<close> keeps the first item and replaces it only by an item whose
  key is strictly greater; on an empty iterable it raises \<^verbatim>\<open>ValueError\<close>.
\<close>

fun max_loop :: "('a \<Rightarrow> 'k::linorder) \<Rightarrow> 'a \<Rightarrow> 'a list \<Rightarrow> 'a" where
  "max_loop key best [] = best"
| "max_loop key best (x # xs) = max_loop key (if key best < key x then x else best) xs"

definition py_max :: "('a \<Rightarrow> 'k::linorder) \<Rightarrow> 'a list \<Rightarrow> error + 'a" where
  "py_max key xs = (case xs of [] \<Rightarrow> Inl ValueError | x # rest \<Rightarrow> Inr (max_loop key x rest))"

section \<open>Configuration validation\<close>

text \<open>
  \<^verbatim>\<open>ipaddress.ip_address\<close> belongs to Python's standard library, not to the program.
  It is a parameter of the model: \<open>ip_address val\<close> holds when the call accepts \<open>val\<close> as an
  IPv4 or IPv6 literal, and is false when it raises \<^verbatim>\<open>ValueError\<close>.

  \<^verbatim>\<open>Node.check_host\<close> returns the host when the parser raises, and otherwise reaches
  \<^verbatim>\<open>assert False\<close>. Assertions are taken as enabled (the interpreter's default mode).
\<close>

definition check_host :: "(string \<Rightarrow> bool) \<Rightarrow> string \<Rightarrow> error + string" where
  "check_host ip_address val =
     (if ip_address val then Inl (AssertionError ''IP address is not allowed for SRV record.'')
      else Inr val)"

text \<open>\<^verbatim>\<open>Config.check_nodes\<close>: \<^verbatim>\<open>assert len(set(subdomains)) == len(subdomains)\<close>.\<close>

definition check_nodes :: "node list \<Rightarrow> error + node list" where
  "check_nodes val =
     (let subdomains = map subdomain val in
      if card (set subdomains) = length subdomains then Inr val
      else Inl (AssertionError ''conflict subdomains found.''))"

text \<open>
  \<^verbatim>\<open>read_config\<close> is \<^verbatim>\<open>Config.model_validate_json\<close> on the file's content; \<open>raw\<close> is
  the content once parsed. The validation library runs \<^verbatim>\<open>check_host\<close> on every node,
  runs \<^verbatim>\<open>check_nodes\<close> (an "after" validator) only when every node passed, and turns
  the assertion failures into one \<^verbatim>\<open>ValidationError\<close>.
\<close>

definition read_config :: "(string \<Rightarrow> bool) \<Rightarrow> config \<Rightarrow> error + config" where
  "read_config ip_address raw =
     (let failures = concat (map (\<lambda>n. case check_host ip_address (host n) of
                                        Inl (AssertionError m) \<Rightarrow> [m] | _ \<Rightarrow> []) (nodes raw)) in
      if failures \<noteq> [] then Inl (ValidationError failures)
      else case check_nodes (nodes raw) of
             Inl (AssertionError m) \<Rightarrow> Inl (ValidationError [m])
           | Inl e \<Rightarrow> Inl e
           | Inr val \<Rightarrow> Inr (raw\<lparr>nodes := val\<rparr>))"

section \<open>Effects: the console, the network and the DNS provider\<close>

text \<open>The data of an SRV record, \<^verbatim>\<open>srv_record_param.Data\<close>.\<close>

record srv_data =
  target :: string
  srv_port :: int
  priority :: int
  weight :: int

text \<open>
  What the program prints. A literal is kept as it is; a formatted line is kept as its
  format's arguments (\<open>Tested\<close> is the one \<^verbatim>\<open>print\<close> of all "tested:" lines).
\<close>

datatype message =
    Text string
  | Tested "(node \<times> pyfloat) list"
  | Selected node
  | Updating string string int
  | Updated string
  | Ping_failed string

text \<open>
  Everything the program does to the outside, in the order it does it: \<^verbatim>\<open>print\<close>,
  \<^verbatim>\<open>eprint\<close>, a probe \<^verbatim>\<open>JavaServer(host, port, timeout).ping()\<close>, and the four
  calls of the provider's API with their arguments (for \<open>Records_update\<close>:
  \<^verbatim>\<open>dns_record_id, zone_id, name, data, type\<close>).
\<close>

datatype event =
    Print message
  | Eprint message
  | Ping string int real
  | Zones_get string
  | Records_list string string string nat
  | Records_update nat string string srv_data string
  | Records_create string string srv_data string

fun dns_operation :: "event \<Rightarrow> bool" where
  "dns_operation (Zones_get _) = True"
| "dns_operation (Records_list _ _ _ _) = True"
| "dns_operation (Records_update _ _ _ _ _) = True"
| "dns_operation (Records_create _ _ _ _) = True"
| "dns_operation _ = False"

fun dns_mutation :: "event \<Rightarrow> bool" where
  "dns_mutation (Records_update _ _ _ _ _) = True"
| "dns_mutation (Records_create _ _ _ _) = True"
| "dns_mutation _ = False"

fun network_activity :: "event \<Rightarrow> bool" where
  "network_activity (Print _) = False"
| "network_activity (Eprint _) = False"
| "network_activity _ = True"

text \<open>
  The outcome of one probe: a latency, or the exception \<^verbatim>\<open>ping()\<close> raised. The network
  is a parameter: \<open>net h p t k\<close> is the outcome of the \<open>k\<close>-th probe of the run, made to
  host \<open>h\<close>, port \<open>p\<close> with timeout \<open>t\<close>.
\<close>

datatype ping_outcome = Latency real | Ping_error string

type_synonym network = "string \<Rightarrow> int \<Rightarrow> real \<Rightarrow> nat \<Rightarrow> ping_outcome"

text \<open>
  The provider (the Cloudflare client and the service behind it) is outside the
  program. Its model follows the interface the program uses: a zone lookup by id, which
  raises, returns nothing or returns the zone's name; a store of records, each with an
  identity; a listing by zone, exact name and type, cut to the page size; an update that
  overwrites the record of a given identity; a create that stores a record under a fresh
  identity.
\<close>

record dns_record =
  rec_id :: nat
  rec_zone :: string
  rec_name :: string
  rec_type :: string
  rec_data :: srv_data

record cloudflare =
  zones :: "string \<Rightarrow> error + string option"
  records :: "dns_record list"
  next_id :: nat

record world =
  trace :: "event list"
  pings :: nat
  cf :: cloudflare

definition emit :: "event \<Rightarrow> world \<Rightarrow> world" where
  "emit ev w = w\<lparr>trace := trace w @ [ev]\<rparr>"

definition zones_get :: "string \<Rightarrow> world \<Rightarrow> (error + string option) \<times> world" where
  "zones_get zid w = (zones (cf w) zid, emit (Zones_get zid) w)"

definition matching :: "string \<Rightarrow> string \<Rightarrow> string \<Rightarrow> dns_record \<Rightarrow> bool" where
  "matching zid name ty r = (rec_zone r = zid \<and> rec_name r = name \<and> rec_type r = ty)"

definition dns_records_list ::
  "string \<Rightarrow> string \<Rightarrow> string \<Rightarrow> nat \<Rightarrow> world \<Rightarrow> (error + dns_record list) \<times> world" where
  "dns_records_list zid name ty per_page w =
     (Inr (take per_page (filter (matching zid name ty) (records (cf w)))),
      emit (Records_list zid name ty per_page) w)"

definition overwrite :: "nat \<Rightarrow> string \<Rightarrow> string \<Rightarrow> srv_data \<Rightarrow> string \<Rightarrow> dns_record \<Rightarrow> dns_record" where
  "overwrite rid zid name data ty r =
     (if rec_id r = rid \<and> rec_zone r = zid
      then r\<lparr>rec_name := name, rec_type := ty, rec_data := data\<rparr> else r)"

definition dns_records_update ::
  "nat \<Rightarrow> string \<Rightarrow> string \<Rightarrow> srv_data \<Rightarrow> string \<Rightarrow> world \<Rightarrow> (error + unit) \<times> world" where
  "dns_records_update rid zid name data ty w =
     (let w1 = emit (Records_update rid zid name data ty) w in
      if \<exists>r\<in>set (records (cf w)). rec_id r = rid \<and> rec_zone r = zid
      then (Inr (), w1\<lparr>cf := (cf w)\<lparr>records := map (overwrite rid zid name data ty) (records (cf w))\<rparr>\<rparr>)
      else (Inl (APIError ''record not found''), w1))"

definition dns_records_create ::
  "string \<Rightarrow> string \<Rightarrow> srv_data \<Rightarrow> string \<Rightarrow> world \<Rightarrow> (error + unit) \<times> world" where
  "dns_records_create zid name data ty w =
     (let w1 = emit (Records_create zid name data ty) w;
          r = \<lparr>rec_id = next_id (cf w), rec_zone = zid, rec_name = name, rec_type = ty,
               rec_data = data\<rparr>
      in (Inr (), w1\<lparr>cf := (cf w)\<lparr>records := records (cf w) @ [r],
                                  next_id := Suc (next_id (cf w))\<rparr>\<rparr>))"

section \<open>Scoring\<close>

text \<open>
  \<^verbatim>\<open>JavaServer(host, port, timeout)\<close>: the probing library builds the server's address
  and raises \<^verbatim>\<open>ValueError\<close> for a port outside \<open>0..65535\<close>; the configuration accepts any
  integer as a port.
\<close>

definition java_server :: "string \<Rightarrow> int \<Rightarrow> real \<Rightarrow> error + string \<times> int \<times> real" where
  "java_server h p t = (if p < 0 \<or> 65535 < p then Inl ValueError else Inr (h, p, t))"

text \<open>
  \<^verbatim>\<open>check_preference(node, timeout)\<close>. The server object is built before the \<^verbatim>\<open>try\<close>,
  so its exception is not caught. The probe is inside \<^verbatim>\<open>try\<close>, with
  \<^verbatim>\<open>except Exception\<close> printing to the error stream and returning 0. The division
  \<^verbatim>\<open>(node.bandwidth**2) / lat\<close> is after the \<^verbatim>\<open>try\<close> statement: nothing catches what it
  raises.
\<close>

definition check_preference :: "network \<Rightarrow> node \<Rightarrow> real \<Rightarrow> world \<Rightarrow> (error + pyfloat) \<times> world" where
  "check_preference net n t w =
     (case java_server (host n) (port n) t of
        Inl e \<Rightarrow> (Inl e, w)
      | Inr (h, p, t') \<Rightarrow>
          (let w1 = (emit (Ping h p t') w)\<lparr>pings := Suc (pings w)\<rparr> in
           case net h p t' (pings w) of
             Ping_error ex \<Rightarrow> (Inr (Finite 0), emit (Eprint (Ping_failed ex)) w1)
           | Latency lat \<Rightarrow>
               (case truediv ((bandwidth n)\<^sup>2) lat of
                  Inl e \<Rightarrow> (Inl e, w1)
                | Inr pref \<Rightarrow> (Inr pref, w1))))"

text \<open>
  The comprehension \<^verbatim>\<open>[(node, check_preference(node, config.timeout)) for node in config.nodes]\<close>:
  the nodes in their order, stopping at the first exception.
\<close>

fun prefs_of ::
  "network \<Rightarrow> real \<Rightarrow> node list \<Rightarrow> world \<Rightarrow> (error + (node \<times> pyfloat) list) \<times> world" where
  "prefs_of net t [] w = (Inr [], w)"
| "prefs_of net t (n # ns) w =
     (case check_preference net n t w of
        (Inl e, w1) \<Rightarrow> (Inl e, w1)
      | (Inr pref, w1) \<Rightarrow>
          (case prefs_of net t ns w1 of
             (Inl e, w2) \<Rightarrow> (Inl e, w2)
           | (Inr rest, w2) \<Rightarrow> (Inr ((n, pref) # rest), w2)))"

section \<open>Reconciliation\<close>

text \<open>
  \<^verbatim>\<open>update_record(cloudflare, zone_id, subdomain, host, port)\<close>; the client is part of
  the world. An exception of a provider call leaves the function at once.
\<close>

definition update_record ::
  "string \<Rightarrow> string \<Rightarrow> string \<Rightarrow> int \<Rightarrow> world \<Rightarrow> (error + unit) \<times> world" where
  "update_record zid sub h p w =
     (case zones_get zid w of
        (Inl e, w1) \<Rightarrow> (Inl e, w1)
      | (Inr None, w1) \<Rightarrow> (Inl (AssertionError ''got none when get zone info.''), w1)
      | (Inr (Some zname), w1) \<Rightarrow>
          (let fqdn = concat_domain [''_minecraft._tcp'', sub, zname];
               w2 = emit (Print (Updating fqdn h p)) w1
           in case dns_records_list zid fqdn ''SRV'' 1 w2 of
                (Inl e, w3) \<Rightarrow> (Inl e, w3)
              | (Inr result, w3) \<Rightarrow>
                  (let data = \<lparr>target = h, srv_port = p, priority = 0, weight = 0\<rparr>
                   in case (case result of
                              r # _ \<Rightarrow> dns_records_update (rec_id r) zid fqdn data ''SRV'' w3
                            | [] \<Rightarrow> dns_records_create zid fqdn data ''SRV'' w3) of
                        (Inl e, w4) \<Rightarrow> (Inl e, w4)
                      | (Inr u, w4) \<Rightarrow> (Inr (), emit (Print (Updated fqdn)) w4))))"

section \<open>The run\<close>

text \<open>
  The loop \<^verbatim>\<open>for node in config.nodes: update(concat_domain(node.subdomain, config.subdomain), node.host, node.port)\<close>.
\<close>

fun update_nodes :: "string \<Rightarrow> string \<Rightarrow> node list \<Rightarrow> world \<Rightarrow> (error + unit) \<times> world" where
  "update_nodes zid base [] w = (Inr (), w)"
| "update_nodes zid base (n # ns) w =
     (case update_record zid (concat_domain [subdomain n, base]) (host n) (port n) w of
        (Inl e, w1) \<Rightarrow> (Inl e, w1)
      | (Inr u, w1) \<Rightarrow> update_nodes zid base ns w1)"

text \<open>
  \<^verbatim>\<open>main()\<close>. The result \<open>Inr ()\<close> is a normal return; \<open>Inl e\<close> is the exception that
  ends the process. The provider session (\<^verbatim>\<open>with Cloudflare(...)\<close>) makes no call of
  its own and is not an event.
\<close>

definition main :: "(string \<Rightarrow> bool) \<Rightarrow> network \<Rightarrow> config \<Rightarrow> world \<Rightarrow> (error + unit) \<times> world" where
  "main ip_address net raw w =
     (case read_config ip_address raw of
        Inl e \<Rightarrow> (Inl e, w)
      | Inr config \<Rightarrow>
          (case prefs_of net (timeout config) (nodes config) w of
             (Inl e, w1) \<Rightarrow> (Inl e, w1)
           | (Inr prefs, w1) \<Rightarrow>
               (let w2 = emit (Print (Tested prefs)) w1
                in case py_max snd prefs of
                     Inl e \<Rightarrow> (Inl e, w2)
                   | Inr (selected, pref) \<Rightarrow>
                       if pref = Finite 0
                       then (Inr (), emit (Eprint (Text ''no node available.'')) w2)
                       else
                         (let w3 = emit (Print (Selected selected)) w2
                          in case update_nodes (zone_id config) (base_subdomain config)
                                    (nodes config) w3 of
                               (Inl e, w4) \<Rightarrow> (Inl e, w4)
                             | (Inr u, w4) \<Rightarrow>
                                 update_record (zone_id config) (base_subdomain config)
                                   (host selected) (port selected) w4))))"

text \<open>The events a step added to the trace: those of \<open>w'\<close> after the ones \<open>w\<close> already had.\<close>

definition events_since :: "world \<Rightarrow> world \<Rightarrow> event list" where
  "events_since w w' = drop (length (trace w)) (trace w')"

section \<open>Example data\<close>

text \<open>
  The two nodes of the specification's scenario (bandwidth 10 and 5), a network on which
  their probes take 2.0 and 1.0, a network on which every probe fails with a timeout, a
  network on which every probe reports latency 0, a node of bandwidth 1 with a network
  on which every probe takes 3.0, a node of bandwidth \<open>10^155\<close>, an address parser that accepts just
  the two literals the specification names, and a starting world: nothing printed, no
  probe made, a provider that knows one zone and holds no record.
\<close>

definition scenario_a :: node where
  "scenario_a = \<lparr>subdomain = ''a'', host = ''a.example.com'', port = 25565, bandwidth = 10\<rparr>"

definition scenario_b :: node where
  "scenario_b = \<lparr>subdomain = ''b'', host = ''b.example.com'', port = 25565, bandwidth = 5\<rparr>"

definition scenario_config :: config where
  "scenario_config = \<lparr>api_token = ''token'', zone_id = ''z1'', base_subdomain = ''mc'',
     nodes = [scenario_a, scenario_b], timeout = 5\<rparr>"

definition scenario_net :: network where
  "scenario_net h p t k = (if h = ''a.example.com'' then Latency 2 else Latency 1)"

definition net_down :: network where
  "net_down h p t k = Ping_error ''timed out''"

definition net_instant :: network where
  "net_instant h p t k = Latency 0"

definition node_one :: node where
  "node_one = \<lparr>subdomain = ''one'', host = ''one.example.com'', port = 25565, bandwidth = 1\<rparr>"

definition node_huge :: node where
  "node_huge = \<lparr>subdomain = ''huge'', host = ''huge.example.com'', port = 25565,
     bandwidth = 10 ^ 155\<rparr>"

definition net_three :: network where
  "net_three h p t k = Latency 3"

definition literal_hosts :: "string \<Rightarrow> bool" where
  "literal_hosts h = (h = ''127.0.0.1'' \<or> h = ''::1'')"

definition world0 :: world where
  "world0 = \<lparr>trace = [], pings = 0,
     cf = \<lparr>zones = (\<lambda>zid. if zid = ''z1'' then Inr (Some ''example.com'')
                            else Inl (APIError ''zone not found'')),
            records = [], next_id = 0\<rparr>\<rparr>"

section \<open>Theorems\<close>

subsection \<open>Python floats\<close>

lemma less_Finite: "(Finite a < Finite b) = (a < b)"
  by (auto simp add: less_pyfloat_def)

lemma pow2_powi: "pow2 e = 2 powi e"
  by (simp add: pow2_def power_int_def field_simps)

lemma bits_bounds:
  "0 < n \<Longrightarrow> 2 ^ (bits n - 1) \<le> n \<and> n < 2 ^ bits n"
proof (induction n rule: bits.induct)
  case (1 n)
  show ?case
  proof (cases "n div 2 = 0")
    case True
    with "1.prems" have "n = 1" by linarith
    then show ?thesis by (simp add: bits.simps)
  next
    case False
    define d where "d = n div 2"
    define k where "k = bits d"
    have ih: "2 ^ (k - 1) \<le> d \<and> d < 2 ^ k"
      using "1.IH" "1.prems" False by (simp add: d_def k_def)
    have b: "bits n = Suc k"
      using "1.prems" by (subst bits.simps) (simp add: d_def k_def)
    have pos: "0 < k"
      using False unfolding k_def d_def by (subst bits.simps) simp
    then have e: "(2::nat) ^ k = 2 * 2 ^ (k - 1)"
      by (cases k) simp_all
    have lo: "2 * d \<le> n" and hi: "n \<le> 2 * d + 1"
      unfolding d_def by linarith+
    have "(2::nat) ^ k \<le> n"
      using ih e lo by linarith
    moreover have "n < 2 * 2 ^ k"
      using ih hi by linarith
    ultimately show ?thesis
      by (simp add: b)
  qed
qed

lemma floor_log2_bounds:
  assumes "0 < x"
  shows "2 powi (floor_log2 x) \<le> x \<and> x < 2 powi (floor_log2 x + 1)"
proof (cases "1 \<le> x")
  case True
  define n where "n = nat \<lfloor>x\<rfloor>"
  have n: "0 < n" using True by (simp add: n_def)
  have fl: "floor_log2 x = int (bits n) - 1"
    using True by (simp add: floor_log2_def n_def)
  from bits_bounds [OF n] have lo: "2 ^ (bits n - 1) \<le> n" and hi: "n < 2 ^ bits n"
    by simp_all
  have bp: "0 < bits n"
    using n by (subst bits.simps) simp
  have nx: "real n \<le> x" and xn: "x < real n + 1"
    using True by (simp_all add: n_def)
  have "real (2 ^ (bits n - 1)) \<le> real n"
    using lo by (rule of_nat_mono)
  then have "(2::real) ^ (bits n - 1) \<le> real n"
    by (simp only: of_nat_power of_nat_numeral)
  then have a: "2 ^ (bits n - 1) \<le> x"
    using nx by linarith
  have "real (Suc n) \<le> real (2 ^ bits n)"
    using hi by (intro of_nat_mono) simp
  then have "real n + 1 \<le> (2::real) ^ bits n"
    by (simp only: of_nat_power of_nat_numeral of_nat_Suc)
  then have b: "x < 2 ^ bits n"
    using xn by linarith
  have e1: "int (bits n) - 1 = int (bits n - 1)" using bp by simp
  have e2: "int (bits n) - 1 + 1 = int (bits n)" by simp
  show ?thesis
    unfolding fl e2 unfolding e1 using a b by (simp only: power_int_of_nat)
next
  case False
  then have x1: "x < 1" by simp
  define c where "c = \<lceil>1 / x\<rceil>"
  define m where "m = nat (c - 1)"
  have c2: "2 \<le> c"
    using assms x1 by (simp add: c_def le_ceiling_iff)
  have m: "0 < m" using c2 by (simp add: m_def)
  have fl: "floor_log2 x = - int (bits m)"
    using False by (simp add: floor_log2_def m_def c_def)
  from bits_bounds [OF m] have lo: "2 ^ (bits m - 1) \<le> m" and hi: "m < 2 ^ bits m"
    by simp_all
  have bp: "0 < bits m"
    using m by (subst bits.simps) simp
  have mc: "int m = c - 1" using c2 by (simp add: m_def)
  have cx: "1 / x \<le> of_int c" and xc: "of_int c - 1 < 1 / x"
    by (simp_all add: c_def) linarith+
  have cm: "real_of_int c = real m + 1"
  proof -
    have "real_of_int c = real_of_int (int m + 1)" using mc by simp
    then show ?thesis by simp
  qed
  have "real (Suc m) \<le> real (2 ^ bits m)"
    using hi by (intro of_nat_mono) simp
  then have "real m + 1 \<le> (2::real) ^ bits m"
    by (simp only: of_nat_power of_nat_numeral of_nat_Suc)
  then have "1 / x \<le> 2 ^ bits m"
    using cx cm by linarith
  then have a: "1 / 2 ^ bits m \<le> x"
    using assms by (simp add: field_simps)
  have "real (2 ^ (bits m - 1)) \<le> real m"
    using lo by (rule of_nat_mono)
  then have "(2::real) ^ (bits m - 1) \<le> real m"
    by (simp only: of_nat_power of_nat_numeral)
  then have "2 ^ (bits m - 1) < 1 / x"
    using xc cm by linarith
  then have b: "x < 1 / 2 ^ (bits m - 1)"
    using assms by (simp add: field_simps)
  have e1: "- int (bits m) + 1 = - int (bits m - 1)" using bp by simp
  show ?thesis
    unfolding fl e1 using a b
    by (simp add: power_int_minus field_simps)
qed


lemma round_half_even_int: "round_half_even (of_int z) = z"
  by (simp add: round_half_even_def)

lemma powi_less_exponent:
  assumes "(2::real) powi a < 2 powi b"
  shows "a < b"
proof (rule ccontr)
  assume "\<not> a < b"
  then have "b \<le> a" by simp
  then have "(2::real) powi b \<le> 2 powi a"
    by (intro power_int_increasing) simp_all
  with assms show False by simp
qed

lemma round_double_exact:
  assumes "is_double x"
  shows "round_double x = Finite x"
proof (cases "x = 0")
  case True
  then show ?thesis by (simp add: round_double_def)
next
  case False
  from assms obtain m e where m: "\<bar>m\<bar> < 2 ^ 53" and e: "- 1074 \<le> e" "e \<le> 971"
    and x: "x = of_int m * 2 powi e"
    by (auto simp add: is_double_def pow2_powi)
  have ax: "\<bar>x\<bar> = of_int \<bar>m\<bar> * 2 powi e"
    by (simp add: x abs_mult)
  have pos: "0 < \<bar>x\<bar>" using False by simp
  define k where "k = floor_log2 \<bar>x\<bar>"
  define q where "q = quantum x"
  have mr: "real_of_int \<bar>m\<bar> < 2 ^ 53"
  proof -
    have "real_of_int \<bar>m\<bar> < real_of_int (2 ^ 53)"
      using m by (simp only: of_int_less_iff)
    then show ?thesis by simp
  qed
  have "\<bar>x\<bar> < 2 ^ 53 * 2 powi e"
    unfolding ax using mr by (intro mult_strict_right_mono) simp_all
  then have up: "\<bar>x\<bar> < 2 powi (e + 53)"
    by (simp add: power_int_add)
  have "2 powi k \<le> \<bar>x\<bar>"
    using floor_log2_bounds [OF pos] by (simp add: k_def)
  with up have "(2::real) powi k < 2 powi (e + 53)" by linarith
  then have "k < e + 53" by (rule powi_less_exponent)
  then have qe: "q \<le> e"
    using e by (simp add: q_def quantum_def k_def)
  define j where "j = nat (e - q)"
  have ej: "e = q + int j" using qe by (simp add: j_def)
  have sp: "(2::real) powi e = 2 ^ j * 2 powi q"
    unfolding ej by (simp add: power_int_add)
  have dv: "x / 2 powi q = of_int (m * 2 ^ j)"
    by (simp add: x sp)
  have r: "of_int (round_half_even (x / 2 powi q)) * 2 powi q = x"
    unfolding dv round_half_even_int by (simp add: x sp)
  have "\<bar>x\<bar> < 2 ^ 53 * 2 ^ 971"
  proof -
    have "(2::real) powi e \<le> 2 powi 971"
      using e by (intro power_int_increasing) simp_all
    then have le: "(2::real) powi e \<le> 2 ^ 971"
      by simp
    have "of_int \<bar>m\<bar> * 2 powi e \<le> of_int \<bar>m\<bar> * (2::real) ^ 971"
      using le by (intro mult_left_mono) simp_all
    moreover have "of_int \<bar>m\<bar> * (2::real) ^ 971 < 2 ^ 53 * 2 ^ 971"
      using mr by (intro mult_strict_right_mono) simp_all
    ultimately show ?thesis unfolding ax by linarith
  qed
  then have big: "\<bar>x\<bar> < 2 ^ 1024"
    by simp
  show ?thesis
    using False big r
    by (simp add: round_double_def Let_def pow2_powi q_def [symmetric]) linarith
qed

lemma round_double_overflow:
  assumes "2 ^ 1024 \<le> x"
  shows "round_double x = Infinity"
proof -
  have pos: "0 < x"
    using assms by (smt (verit) zero_less_power)
  have ax: "\<bar>x\<bar> = x" using pos by simp
  define k where "k = floor_log2 x"
  have lo: "2 powi k \<le> x" and hi: "x < 2 powi (k + 1)"
    using floor_log2_bounds [OF pos] by (simp_all add: k_def)
  have "(2::real) ^ 1024 < 2 powi (k + 1)"
    using assms hi by linarith
  then have "(2::real) powi 1024 < 2 powi (k + 1)"
    by simp
  then have k: "1024 < k + 1" by (rule powi_less_exponent)
  have q: "quantum x = k - 52"
    using k by (simp add: quantum_def ax k_def)
  have sp: "(2::real) powi k = 2 ^ 52 * 2 powi (k - 52)"
  proof -
    have "(2::real) powi k = 2 powi (52 + (k - 52))" by simp
    also have "\<dots> = 2 powi 52 * 2 powi (k - 52)"
      by (rule power_int_add) simp
    finally show ?thesis by simp
  qed
  have qp: "0 < (2::real) powi (k - 52)"
    by simp
  have "2 ^ 52 \<le> x / 2 powi (k - 52)"
    using lo qp unfolding sp by (simp add: pos_le_divide_eq)
  then have "(2::int) ^ 52 \<le> \<lfloor>x / 2 powi (k - 52)\<rfloor>"
    by (simp add: le_floor_iff)
  moreover have "\<lfloor>y\<rfloor> \<le> round_half_even y" for y
    by (simp add: round_half_even_def Let_def)
  ultimately have "(2::int) ^ 52 \<le> round_half_even (x / 2 powi (k - 52))"
    by (rule order_trans)
  then have "real_of_int (2 ^ 52) \<le> of_int (round_half_even (x / 2 powi (k - 52)))"
    by (simp only: of_int_le_iff)
  then have "2 ^ 52 * 2 powi (k - 52)
      \<le> of_int (round_half_even (x / 2 powi (k - 52))) * (2::real) powi (k - 52)"
    by (intro mult_right_mono) simp_all
  then have "2 powi k \<le> of_int (round_half_even (x / 2 powi (k - 52))) * (2::real) powi (k - 52)"
    by (simp only: sp)
  moreover have "(2::real) ^ 1024 \<le> 2 powi k"
  proof -
    have "(2::real) powi 1024 \<le> 2 powi k"
      using k by (intro power_int_increasing) simp_all
    then show ?thesis by simp
  qed
  ultimately have "2 ^ 1024 \<le> of_int (round_half_even (x / 2 powi (k - 52))) * (2::real) powi (k - 52)"
    by linarith
  then show ?thesis
    using pos by (simp add: round_double_def Let_def pow2_powi q)
qed


lemma is_double_int:
  assumes "\<bar>i\<bar> < 2 ^ 53"
  shows "is_double (of_int i)"
  unfolding is_double_def
  using assms by (intro exI [of _ i] exI [of _ 0]) (simp add: pow2_def)

lemma int_as_double_exact:
  assumes "is_double (of_int i)"
  shows "int_as_double i = Inr (of_int i)"
  by (simp add: int_as_double_def round_double_exact [OF assms])

lemma int_as_double_overflow:
  assumes "2 ^ 1024 \<le> i"
  shows "int_as_double i = Inl OverflowError"
proof -
  have "real_of_int (2 ^ 1024) \<le> of_int i"
    using assms by (simp only: of_int_le_iff)
  then have "2 ^ 1024 \<le> real_of_int i"
    by simp
  then show ?thesis
    by (simp add: int_as_double_def round_double_overflow)
qed

lemma truediv_exact:
  assumes "is_double (of_int i)" and "b \<noteq> 0" and "is_double (of_int i / b)"
  shows "truediv i b = Inr (Finite (of_int i / b))"
  using assms by (simp add: truediv_def int_as_double_exact round_double_exact)

lemma is_double_50: "is_double 50"
  unfolding is_double_def
  by (intro exI [of _ 50] exI [of _ 0]) (simp add: pow2_def)

lemma is_double_25: "is_double 25"
  unfolding is_double_def
  by (intro exI [of _ 25] exI [of _ 0]) (simp add: pow2_def)

lemma truediv_100_2: "truediv 100 2 = Inr (Finite 50)"
  using truediv_exact [of 100 2] is_double_int [of 100] is_double_50 by simp

lemma truediv_25_1: "truediv 25 1 = Inr (Finite 25)"
  using truediv_exact [of 25 1] is_double_int [of 25] is_double_25 by simp

lemma round_third: "round_double (1 / 3) = Finite (6004799503160661 / 2 ^ 54)"
  by (simp add: round_double_def quantum_def floor_log2_def bits.simps pow2_def
      round_half_even_def Let_def)

subsection \<open>Selection\<close>

text \<open>
  The loop of \<open>max\<close> returns an item of the sequence that splits it in two: every item
  before it has a strictly smaller key, every item after it a key that is not greater.
\<close>

lemma max_loop_split:
  "\<exists>ys zs. b # xs = ys @ max_loop key b xs # zs
     \<and> (\<forall>y\<in>set ys. key y < key (max_loop key b xs))
     \<and> (\<forall>z\<in>set zs. key z \<le> key (max_loop key b xs))"
proof (induction xs arbitrary: b)
  case Nil
  show ?case by (rule exI [of _ "[]"]) simp
next
  case (Cons x xs)
  show ?case
  proof (cases "key b < key x")
    case True
    from Cons.IH [of x] obtain ys zs where
      d: "x # xs = ys @ max_loop key x xs # zs"
      and lo: "\<forall>y\<in>set ys. key y < key (max_loop key x xs)"
      and hi: "\<forall>z\<in>set zs. key z \<le> key (max_loop key x xs)"
      by blast
    have "x \<in> set (ys @ max_loop key x xs # zs)"
      using d by (metis list.set_intros(1))
    then have "key x \<le> key (max_loop key x xs)"
      using lo hi by auto
    then have lt: "key b < key (max_loop key x xs)"
      using True by simp
    have "b # x # xs = (b # ys) @ max_loop key x xs # zs"
      using d by simp
    moreover have "\<forall>y\<in>set (b # ys). key y < key (max_loop key x xs)"
      using lo lt by simp
    ultimately have "\<exists>ys zs. b # x # xs = ys @ max_loop key x xs # zs
        \<and> (\<forall>y\<in>set ys. key y < key (max_loop key x xs))
        \<and> (\<forall>z\<in>set zs. key z \<le> key (max_loop key x xs))"
      using hi by blast
    then show ?thesis
      using True by simp
  next
    case False
    from Cons.IH [of b] obtain ys zs where
      d: "b # xs = ys @ max_loop key b xs # zs"
      and lo: "\<forall>y\<in>set ys. key y < key (max_loop key b xs)"
      and hi: "\<forall>z\<in>set zs. key z \<le> key (max_loop key b xs)"
      by blast
    have "\<exists>ys zs. b # x # xs = ys @ max_loop key b xs # zs
        \<and> (\<forall>y\<in>set ys. key y < key (max_loop key b xs))
        \<and> (\<forall>z\<in>set zs. key z \<le> key (max_loop key b xs))"
    proof (cases ys)
      case Nil
      with d have e: "b # xs = max_loop key b xs # zs"
        by (simp only: append_Nil)
      have m: "max_loop key b xs = b"
        using e by (metis list.inject)
      have z: "zs = xs"
        using e by (metis list.inject)
      have "b # x # xs = [] @ max_loop key b xs # (x # zs)"
        using m z by simp
      moreover have "\<forall>z\<in>set (x # zs). key z \<le> key (max_loop key b xs)"
        using hi False m by auto
      moreover have "\<forall>y\<in>set ([]::'a list). key y < key (max_loop key b xs)"
        by simp
      ultimately show ?thesis by blast
    next
      case (Cons y ys')
      with d have e: "b # xs = y # (ys' @ max_loop key b xs # zs)"
        by (simp only: append_Cons)
      have yb: "y = b"
        using e by (metis list.inject)
      have xs: "xs = ys' @ max_loop key b xs # zs"
        using e by (metis list.inject)
      have lt: "key b < key (max_loop key b xs)"
        using lo Cons yb by simp
      have "b # x # xs = (b # x # ys') @ max_loop key b xs # zs"
        using xs by simp
      moreover have "\<forall>y\<in>set (b # x # ys'). key y < key (max_loop key b xs)"
        using lo Cons False lt by auto
      ultimately show ?thesis using hi by blast
    qed
    then show ?thesis
      using False by simp
  qed
qed

text \<open>
  C4. On a non-empty list of (node, score) pairs with at least one positive score,
  \<^verbatim>\<open>max(prefs, key=lambda val: val[1])\<close> returns a pair of the list whose score is maximal
  (and positive), and it is the earliest such pair: every pair before it has a strictly
  smaller score. The selection is a function of the list, so no randomness enters.
\<close>

theorem py_max_first_maximal:
  fixes prefs :: "(node \<times> pyfloat) list"
  assumes "prefs \<noteq> []" and "\<exists>p\<in>set prefs. Finite 0 < snd p"
  shows "\<exists>before winner after.
           py_max snd prefs = Inr winner
         \<and> prefs = before @ winner # after
         \<and> (\<forall>p\<in>set before. snd p < snd winner)
         \<and> (\<forall>p\<in>set after. snd p \<le> snd winner)
         \<and> Finite 0 < snd winner"
proof -
  from assms(1) obtain b xs where p: "prefs = b # xs"
    by (cases prefs) auto
  from max_loop_split [of b xs snd] obtain ys zs where
    d: "b # xs = ys @ max_loop snd b xs # zs"
    and lo: "\<forall>y\<in>set ys. snd y < snd (max_loop snd b xs)"
    and hi: "\<forall>z\<in>set zs. snd z \<le> snd (max_loop snd b xs)"
    by blast
  from assms(2) obtain q where q: "q \<in> set (b # xs)" and qpos: "Finite 0 < snd q"
    using p by blast
  have "q \<in> set (ys @ max_loop snd b xs # zs)"
    using q d by simp
  then have "snd q \<le> snd (max_loop snd b xs)"
    using lo hi by auto
  with qpos have pos: "Finite 0 < snd (max_loop snd b xs)"
    by (rule less_le_trans)
  have m: "py_max snd prefs = Inr (max_loop snd b xs)"
    using p by (simp add: py_max_def)
  have s: "prefs = ys @ max_loop snd b xs # zs"
    using p d by simp
  from m s lo hi pos show ?thesis by blast
qed

theorem py_max_first_maximal_witness:
  "\<exists>before after.
     py_max snd [(scenario_b, Finite 25), (scenario_a, Finite 50), (scenario_b, Finite 50)]
       = Inr (scenario_a, Finite 50)
   \<and> [(scenario_b, Finite 25), (scenario_a, Finite 50), (scenario_b, Finite 50)]
       = before @ (scenario_a, Finite 50) # after"
proof -
  have "[(scenario_b, Finite 25), (scenario_a, Finite 50), (scenario_b, Finite 50)] \<noteq> []"
    by simp
  moreover have "\<exists>p\<in>set [(scenario_b, Finite 25), (scenario_a, Finite 50), (scenario_b, Finite 50)].
      Finite 0 < snd p"
    by (simp add: less_Finite)
  ultimately obtain before winner "after" where
    m: "py_max snd [(scenario_b, Finite 25), (scenario_a, Finite 50), (scenario_b, Finite 50)]
          = Inr winner"
    and s: "[(scenario_b, Finite 25), (scenario_a, Finite 50), (scenario_b, Finite 50)]
          = before @ winner # after"
    using py_max_first_maximal
      [of "[(scenario_b, Finite 25), (scenario_a, Finite 50), (scenario_b, Finite 50)]"]
    by blast
  from m have w: "winner = (scenario_a, Finite 50)"
    by (simp add: py_max_def less_Finite)
  from m s w show ?thesis by blast
qed

subsection \<open>Scoring\<close>

lemma check_preference_latency:
  assumes "0 \<le> port n" and "port n \<le> 65535"
    and "net (host n) (port n) t (pings w) = Latency lat"
  shows "check_preference net n t w =
     (case truediv ((bandwidth n)\<^sup>2) lat of
        Inl e \<Rightarrow> (Inl e, (emit (Ping (host n) (port n) t) w)\<lparr>pings := Suc (pings w)\<rparr>)
      | Inr pref \<Rightarrow> (Inr pref, (emit (Ping (host n) (port n) t) w)\<lparr>pings := Suc (pings w)\<rparr>))"
  using assms by (simp add: check_preference_def java_server_def Let_def)

lemma scenario_scores:
  "fst (prefs_of scenario_net t [scenario_a, scenario_b] w)
     = Inr [(scenario_a, Finite 50), (scenario_b, Finite 25)]"
proof -
  have a: "check_preference scenario_net scenario_a t w =
      (Inr (Finite 50), (emit (Ping (host scenario_a) (port scenario_a) t) w)\<lparr>pings := Suc (pings w)\<rparr>)"
    for w
    using check_preference_latency [of scenario_a scenario_net t w 2] truediv_100_2
    by (simp add: scenario_a_def scenario_net_def)
  have b: "check_preference scenario_net scenario_b t w =
      (Inr (Finite 25), (emit (Ping (host scenario_b) (port scenario_b) t) w)\<lparr>pings := Suc (pings w)\<rparr>)"
    for w
    using check_preference_latency [of scenario_b scenario_net t w 1] truediv_25_1
    by (simp add: scenario_b_def scenario_net_def)
  show ?thesis
    by (simp add: a b)
qed

text \<open>
  C5 does not hold as stated. With bandwidth 1 and latency 3.0 the score is the double
  nearest to one third, \<open>6004799503160661 / 2^54\<close>, which is not one third; with bandwidth
  \<open>10^155\<close> the conversion of bandwidth squared to a float raises \<^verbatim>\<open>OverflowError\<close>.
\<close>

theorem check_preference_not_exact:
  "fst (check_preference net_three node_one 5 world0) = Inr (Finite (6004799503160661 / 2 ^ 54))
   \<and> (6004799503160661 / 2 ^ 54 :: real) \<noteq> 1 / 3
   \<and> fst (check_preference net_three node_huge 5 world0) = Inl OverflowError"
proof -
  have one: "truediv 1 3 = Inr (Finite (6004799503160661 / 2 ^ 54))"
    using int_as_double_exact [of 1] is_double_int [of 1] round_third
    by (simp add: truediv_def)
  have a: "fst (check_preference net_three node_one 5 world0)
      = Inr (Finite (6004799503160661 / 2 ^ 54))"
    using check_preference_latency [of node_one net_three 5 world0 3] one
    by (simp add: node_one_def net_three_def)
  have b: "(6004799503160661 / 2 ^ 54 :: real) \<noteq> 1 / 3"
    by simp
  have "(2::int) ^ 1024 \<le> (10 ^ 155)\<^sup>2"
    by simp
  then have "truediv ((10 ^ 155)\<^sup>2) 3 = Inl OverflowError"
    by (simp only: truediv_def int_as_double_overflow sum.case)
  then have c: "fst (check_preference net_three node_huge 5 world0) = Inl OverflowError"
    using check_preference_latency [of node_huge net_three 5 world0 3]
    by (simp add: node_huge_def net_three_def)
  from a b c show ?thesis by blast
qed

text \<open>
  C5, amended. When the probe of a node (with a port in \<open>0..65535\<close>) succeeds with a
  strictly positive latency \<open>lat\<close>, \<open>check_preference\<close> returns Python's float quotient
  \<^verbatim>\<open>bandwidth**2 / lat\<close>: bandwidth squared converted to a double, divided by \<open>lat\<close> and
  rounded to the nearest double. That is exactly bandwidth squared divided by \<open>lat\<close>
  whenever bandwidth squared and the quotient are doubles, and it is \<^verbatim>\<open>OverflowError\<close>
  when bandwidth squared is \<open>2^1024\<close> or more. In the scenario (bandwidth 10 at latency
  2.0, bandwidth 5 at latency 1.0) the scores are 50.0 and 25.0, and the selection takes the
  first node.
\<close>

theorem check_preference_score:
  assumes "0 \<le> port n" and "port n \<le> 65535"
    and "0 < lat" and "net (host n) (port n) t (pings w) = Latency lat"
  shows "fst (check_preference net n t w) = truediv ((bandwidth n)\<^sup>2) lat
    \<and> (is_double (of_int ((bandwidth n)\<^sup>2)) \<and> is_double (of_int ((bandwidth n)\<^sup>2) / lat)
        \<longrightarrow> fst (check_preference net n t w) = Inr (Finite (of_int ((bandwidth n)\<^sup>2) / lat)))
    \<and> (2 ^ 1024 \<le> (bandwidth n)\<^sup>2
        \<longrightarrow> fst (check_preference net n t w) = Inl OverflowError)
    \<and> fst (prefs_of scenario_net t [scenario_a, scenario_b] w)
        = Inr [(scenario_a, Finite 50), (scenario_b, Finite 25)]
    \<and> py_max snd [(scenario_a, Finite 50), (scenario_b, Finite 25)] = Inr (scenario_a, Finite 50)"
proof -
  have a: "fst (check_preference net n t w) = truediv ((bandwidth n)\<^sup>2) lat"
    using check_preference_latency [of n net t w lat] assms
    by (simp split: sum.splits)
  have b: "is_double (of_int ((bandwidth n)\<^sup>2)) \<and> is_double (of_int ((bandwidth n)\<^sup>2) / lat)
        \<longrightarrow> fst (check_preference net n t w) = Inr (Finite (of_int ((bandwidth n)\<^sup>2) / lat))"
    using assms(3) by (simp add: a truediv_exact)
  have c: "2 ^ 1024 \<le> (bandwidth n)\<^sup>2
        \<longrightarrow> fst (check_preference net n t w) = Inl OverflowError"
    by (simp add: a truediv_def int_as_double_overflow)
  have d: "py_max snd [(scenario_a, Finite 50), (scenario_b, Finite 25)]
      = Inr (scenario_a, Finite 50)"
    by (simp add: py_max_def less_Finite)
  from a b c d scenario_scores [of t w] show ?thesis by blast
qed

theorem check_preference_score_witness:
  "fst (check_preference scenario_net scenario_a 5 world0) = Inr (Finite 50)
   \<and> fst (check_preference scenario_net scenario_b 5 world0) = Inr (Finite 25)"
proof -
  have a: "scenario_net (host scenario_a) (port scenario_a) 5 (pings world0) = Latency 2"
    by (simp add: scenario_net_def scenario_a_def)
  have b: "scenario_net (host scenario_b) (port scenario_b) 5 (pings world0) = Latency 1"
    by (simp add: scenario_net_def scenario_b_def)
  have pa: "0 \<le> port scenario_a" "port scenario_a \<le> 65535"
    by (simp_all add: scenario_a_def)
  have pb: "0 \<le> port scenario_b" "port scenario_b \<le> 65535"
    by (simp_all add: scenario_b_def)
  have da: "is_double (of_int ((bandwidth scenario_a)\<^sup>2))
      \<and> is_double (of_int ((bandwidth scenario_a)\<^sup>2) / 2)"
    using is_double_int [of 100] is_double_50 by (simp add: scenario_a_def)
  have db: "is_double (of_int ((bandwidth scenario_b)\<^sup>2))
      \<and> is_double (of_int ((bandwidth scenario_b)\<^sup>2) / 1)"
    using is_double_int [of 25] is_double_25 by (simp add: scenario_b_def)
  have l2: "0 < (2::real)" and l1: "0 < (1::real)"
    by simp_all
  have "fst (check_preference scenario_net scenario_a 5 world0)
      = Inr (Finite (of_int ((bandwidth scenario_a)\<^sup>2) / 2))"
    using check_preference_score [OF pa l2, of scenario_net 5 world0] a da by blast
  moreover have "fst (check_preference scenario_net scenario_b 5 world0)
      = Inr (Finite (of_int ((bandwidth scenario_b)\<^sup>2) / 1))"
    using check_preference_score [OF pb l1, of scenario_net 5 world0] b db by blast
  ultimately show ?thesis
    by (simp add: scenario_a_def scenario_b_def)
qed

text \<open>
  C6, at the input where the code departs from it. A probe that reports latency 0 makes
  \<open>check_preference\<close> raise \<^verbatim>\<open>ZeroDivisionError\<close> instead of returning the score 0, and
  the exception ends the whole run: no later node is probed.
\<close>

theorem check_preference_zero_latency_raises:
  "fst (check_preference net_instant scenario_a 5 world0) = Inl ZeroDivisionError
   \<and> main (\<lambda>h. False) net_instant scenario_config world0
       = (Inl ZeroDivisionError, world0\<lparr>trace := [Ping ''a.example.com'' 25565 5], pings := 1\<rparr>)"
proof -
  have z: "truediv 100 0 = Inl ZeroDivisionError"
    using int_as_double_exact [of 100] is_double_int [of 100] by (simp add: truediv_def)
  have c: "check_preference net_instant scenario_a 5 world0
      = (Inl ZeroDivisionError, world0\<lparr>trace := [Ping ''a.example.com'' 25565 5], pings := 1\<rparr>)"
    using check_preference_latency [of scenario_a net_instant 5 world0 0] z
    by (simp add: scenario_a_def net_instant_def emit_def world0_def)
  have v: "read_config (\<lambda>h. False) scenario_config = Inr scenario_config"
    by (simp add: read_config_def check_host_def check_nodes_def scenario_config_def
        scenario_a_def scenario_b_def)
  have m: "main (\<lambda>h. False) net_instant scenario_config world0
       = (Inl ZeroDivisionError, world0\<lparr>trace := [Ping ''a.example.com'' 25565 5], pings := 1\<rparr>)"
    by (simp add: main_def v) (simp add: scenario_config_def c)
  from c m show ?thesis by simp
qed



subsection \<open>The run\<close>

lemma check_preference_quiet:
  assumes "check_preference net n t w = (r, w')"
  shows "cf w' = cf w \<and> (\<exists>evs. trace w' = trace w @ evs \<and> filter dns_operation evs = [])"
  using assms
  by (auto simp add: check_preference_def java_server_def emit_def Let_def
      split: ping_outcome.splits if_splits sum.splits)

lemma prefs_of_quiet:
  assumes "prefs_of net t ns w = (r, w')"
  shows "cf w' = cf w \<and> (\<exists>evs. trace w' = trace w @ evs \<and> filter dns_operation evs = [])"
  using assms
proof (induction ns arbitrary: w r w')
  case Nil
  then show ?case by simp
next
  case (Cons n ns)
  obtain r1 w1 where c: "check_preference net n t w = (r1, w1)"
    by (cases "check_preference net n t w")
  from check_preference_quiet [OF c] obtain evs1 where
    q1: "cf w1 = cf w" "trace w1 = trace w @ evs1" "filter dns_operation evs1 = []"
    by blast
  show ?case
  proof (cases r1)
    case (Inl e)
    with Cons.prems c have "w' = w1" by simp
    with q1 show ?thesis by blast
  next
    case (Inr pref)
    obtain r2 w2 where p: "prefs_of net t ns w1 = (r2, w2)"
      by (cases "prefs_of net t ns w1")
    from Cons.IH [OF p] obtain evs2 where
      q2: "cf w2 = cf w1" "trace w2 = trace w1 @ evs2" "filter dns_operation evs2 = []"
      by blast
    from Cons.prems c Inr p have "w' = w2"
      by (cases r2) simp_all
    moreover have "trace w2 = trace w @ (evs1 @ evs2)"
      using q1 q2 by simp
    moreover have "filter dns_operation (evs1 @ evs2) = []"
      using q1 q2 by simp
    ultimately show ?thesis
      using q1 q2 by metis
  qed
qed

lemma prefs_of_nodes:
  assumes "prefs_of net t ns w = (Inr prefs, w')"
  shows "map fst prefs = ns"
  using assms
proof (induction ns arbitrary: w prefs w')
  case Nil
  then show ?case by simp
next
  case (Cons n ns)
  then show ?case
    by (auto split: prod.splits sum.splits)
qed

lemma read_config_same:
  assumes "read_config ip_address raw = Inr config"
  shows "config = raw"
  using assms
  by (auto simp add: read_config_def check_nodes_def Let_def split: if_splits)

lemma main_no_node:
  assumes "read_config ip_address raw = Inr config"
    and "prefs_of net (timeout config) (nodes config) w = (Inr prefs, w1)"
    and "py_max snd prefs = Inr (selected, Finite 0)"
  shows "main ip_address net raw w =
    (Inr (), w1\<lparr>trace := trace w1 @ [Print (Tested prefs), Eprint (Text ''no node available.'')]\<rparr>)"
  using assms by (simp add: main_def emit_def)

lemma py_max_member:
  assumes "py_max key xs = Inr m"
  shows "m \<in> set xs"
proof (cases xs)
  case Nil
  with assms show ?thesis by (simp add: py_max_def)
next
  case (Cons b rest)
  with assms have m: "m = max_loop key b rest" by (simp add: py_max_def)
  from max_loop_split [of b rest key] obtain ys zs where
    "b # rest = ys @ max_loop key b rest # zs" by blast
  then have "max_loop key b rest \<in> set (b # rest)"
    by (metis in_set_conv_decomp)
  with m Cons show ?thesis by simp
qed

lemma py_max_all_zero:
  fixes prefs :: "(node \<times> pyfloat) list"
  assumes "prefs \<noteq> []" and "\<forall>p\<in>set prefs. snd p = Finite 0"
  shows "\<exists>n. py_max snd prefs = Inr (n, Finite 0)"
proof -
  from assms(1) obtain m where m: "py_max snd prefs = Inr m"
    by (cases prefs) (simp_all add: py_max_def)
  from py_max_member [OF m] assms(2) have "snd m = Finite 0" by blast
  then have "m = (fst m, Finite 0)" by (cases m) simp
  with m show ?thesis by metis
qed

lemma no_node_effects:
  assumes pr: "prefs_of net t ns w = (Inr prefs, w1)"
    and m: "m = (Inr (), w1\<lparr>trace := trace w1 @ [Print (Tested prefs), Eprint (Text ''no node available.'')]\<rparr>)"
  shows "filter dns_operation (events_since w (snd m)) = []
       \<and> cf (snd m) = cf w
       \<and> last (trace (snd m)) = Eprint (Text ''no node available.'')"
proof -
  from prefs_of_quiet [OF pr] obtain evs where
    q: "cf w1 = cf w" "trace w1 = trace w @ evs" "filter dns_operation evs = []"
    by blast
  show ?thesis
    using q by (simp add: m events_since_def)
qed

text \<open>
  C1. For a configuration that passes validation and has at least one node: when every
  score is 0, the run returns normally, the events it adds contain no DNS operation (no
  zone lookup, no listing, no create, no update), the provider's state is unchanged, and
  the last thing it does is print "no node available." on the error stream.
\<close>

theorem all_scores_zero_no_dns:
  assumes cfg: "read_config ip_address raw = Inr config"
    and ne: "nodes config \<noteq> []"
    and pr: "prefs_of net (timeout config) (nodes config) w = (Inr prefs, w1)"
    and zero: "\<forall>p\<in>set prefs. snd p = Finite 0"
  shows "fst (main ip_address net raw w) = Inr ()
       \<and> filter dns_operation (events_since w (snd (main ip_address net raw w))) = []
       \<and> cf (snd (main ip_address net raw w)) = cf w
       \<and> last (trace (snd (main ip_address net raw w))) = Eprint (Text ''no node available.'')"
proof -
  have "map fst prefs = nodes config"
    using pr by (rule prefs_of_nodes)
  with ne have "prefs \<noteq> []" by auto
  from py_max_all_zero [OF this zero] obtain n where "py_max snd prefs = Inr (n, Finite 0)"
    by blast
  note m = main_no_node [OF cfg pr this]
  from no_node_effects [OF pr m] m show ?thesis by simp
qed

text \<open>
  C2, amended. When the maximum score is exactly 0 the run prints the scores and
  "no node available." and returns; it makes no DNS operation at all, so it skips the
  per-node alias records as well as the winner-alias record, and the provider's records
  are what they were.
\<close>

theorem max_zero_skips_every_record:
  assumes cfg: "read_config ip_address raw = Inr config"
    and pr: "prefs_of net (timeout config) (nodes config) w = (Inr prefs, w1)"
    and mx: "py_max snd prefs = Inr (selected, Finite 0)"
  shows "main ip_address net raw w =
      (Inr (), w1\<lparr>trace := trace w1 @ [Print (Tested prefs), Eprint (Text ''no node available.'')]\<rparr>)
       \<and> filter dns_operation (events_since w (snd (main ip_address net raw w))) = []
       \<and> records (cf (snd (main ip_address net raw w))) = records (cf w)"
proof -
  note m = main_no_node [OF cfg pr mx]
  from no_node_effects [OF pr m] m show ?thesis by simp
qed


text \<open>The scenario with both nodes unreachable.\<close>

lemma scenario_valid: "read_config (\<lambda>h. False) scenario_config = Inr scenario_config"
  by (simp add: read_config_def check_host_def check_nodes_def scenario_config_def
      scenario_a_def scenario_b_def)

lemma scenario_down:
  "prefs_of net_down 5 [scenario_a, scenario_b] world0 =
     (Inr [(scenario_a, Finite 0), (scenario_b, Finite 0)],
      world0\<lparr>trace := [Ping ''a.example.com'' 25565 5, Eprint (Ping_failed ''timed out''),
                        Ping ''b.example.com'' 25565 5, Eprint (Ping_failed ''timed out'')],
             pings := 2\<rparr>)"
  by (simp add: check_preference_def java_server_def net_down_def emit_def world0_def
      scenario_a_def scenario_b_def)

theorem all_scores_zero_no_dns_witness:
  "fst (main (\<lambda>h. False) net_down scenario_config world0) = Inr ()
   \<and> filter dns_operation (trace (snd (main (\<lambda>h. False) net_down scenario_config world0))) = []
   \<and> last (trace (snd (main (\<lambda>h. False) net_down scenario_config world0)))
       = Eprint (Text ''no node available.'')"
proof -
  have ne: "nodes scenario_config \<noteq> []"
    by (simp add: scenario_config_def)
  have pr: "prefs_of net_down (timeout scenario_config) (nodes scenario_config) world0 =
     (Inr [(scenario_a, Finite 0), (scenario_b, Finite 0)],
      world0\<lparr>trace := [Ping ''a.example.com'' 25565 5, Eprint (Ping_failed ''timed out''),
                        Ping ''b.example.com'' 25565 5, Eprint (Ping_failed ''timed out'')],
             pings := 2\<rparr>)"
    using scenario_down by (simp add: scenario_config_def)
  have z: "\<forall>p\<in>set [(scenario_a, Finite 0), (scenario_b, Finite 0)]. snd p = Finite 0"
    by simp
  have e: "events_since world0 w = trace w" for w
    by (simp add: events_since_def world0_def)
  show ?thesis
    using all_scores_zero_no_dns [OF scenario_valid ne pr z] by (simp add: e)
qed

text \<open>
  C2 does not hold as stated. Both probes of the scenario fail, so the maximum score is
  0; the run then ends after the message, with no alias reconciled: its whole trace is
  four probe events and two prints, without any mutation, and the provider still holds no
  record.
\<close>

theorem max_zero_aliases_not_reconciled:
  "fst (prefs_of net_down 5 (nodes scenario_config) world0)
      = Inr [(scenario_a, Finite 0), (scenario_b, Finite 0)]
   \<and> py_max snd [(scenario_a, Finite 0), (scenario_b, Finite 0)] = Inr (scenario_a, Finite 0)
   \<and> main (\<lambda>h. False) net_down scenario_config world0
      = (Inr (),
         world0\<lparr>trace := [Ping ''a.example.com'' 25565 5, Eprint (Ping_failed ''timed out''),
                          Ping ''b.example.com'' 25565 5, Eprint (Ping_failed ''timed out''),
                          Print (Tested [(scenario_a, Finite 0), (scenario_b, Finite 0)]),
                          Eprint (Text ''no node available.'')],
                pings := 2\<rparr>)
   \<and> filter dns_mutation (trace (snd (main (\<lambda>h. False) net_down scenario_config world0))) = []
   \<and> records (cf (snd (main (\<lambda>h. False) net_down scenario_config world0))) = []"
proof -
  have pr: "prefs_of net_down (timeout scenario_config) (nodes scenario_config) world0 =
     (Inr [(scenario_a, Finite 0), (scenario_b, Finite 0)],
      world0\<lparr>trace := [Ping ''a.example.com'' 25565 5, Eprint (Ping_failed ''timed out''),
                        Ping ''b.example.com'' 25565 5, Eprint (Ping_failed ''timed out'')],
             pings := 2\<rparr>)"
    using scenario_down by (simp add: scenario_config_def)
  have p1: "fst (prefs_of net_down 5 (nodes scenario_config) world0)
      = Inr [(scenario_a, Finite 0), (scenario_b, Finite 0)]"
    using scenario_down by (simp add: scenario_config_def)
  have mx: "py_max snd [(scenario_a, Finite 0), (scenario_b, Finite 0)] = Inr (scenario_a, Finite 0)"
    by (simp add: py_max_def)
  note m = main_no_node [OF scenario_valid pr mx]
  have t: "main (\<lambda>h. False) net_down scenario_config world0
      = (Inr (),
         world0\<lparr>trace := [Ping ''a.example.com'' 25565 5, Eprint (Ping_failed ''timed out''),
                          Ping ''b.example.com'' 25565 5, Eprint (Ping_failed ''timed out''),
                          Print (Tested [(scenario_a, Finite 0), (scenario_b, Finite 0)]),
                          Eprint (Text ''no node available.'')],
                pings := 2\<rparr>)"
    using m by simp
  have f: "filter dns_mutation (trace (snd (main (\<lambda>h. False) net_down scenario_config world0))) = []"
    by (simp add: t)
  have "records (cf (snd (main (\<lambda>h. False) net_down scenario_config world0)))
      = records (cf world0)"
    by (simp add: t)
  then have r: "records (cf (snd (main (\<lambda>h. False) net_down scenario_config world0))) = []"
    by (simp add: world0_def)
  from p1 mx t f r show ?thesis by blast
qed

theorem max_zero_skips_every_record_witness:
  "filter dns_operation (trace (snd (main (\<lambda>h. False) net_down scenario_config world0))) = []
   \<and> records (cf (snd (main (\<lambda>h. False) net_down scenario_config world0))) = []"
proof -
  have pr: "prefs_of net_down (timeout scenario_config) (nodes scenario_config) world0 =
     (Inr [(scenario_a, Finite 0), (scenario_b, Finite 0)],
      world0\<lparr>trace := [Ping ''a.example.com'' 25565 5, Eprint (Ping_failed ''timed out''),
                        Ping ''b.example.com'' 25565 5, Eprint (Ping_failed ''timed out'')],
             pings := 2\<rparr>)"
    using scenario_down by (simp add: scenario_config_def)
  have mx: "py_max snd [(scenario_a, Finite 0), (scenario_b, Finite 0)] = Inr (scenario_a, Finite 0)"
    by (simp add: py_max_def)
  have e: "events_since world0 w = trace w" for w
    by (simp add: events_since_def world0_def)
  have r: "records (cf world0) = []"
    by (simp add: world0_def)
  show ?thesis
    using max_zero_skips_every_record [OF scenario_valid pr mx] by (simp add: e r)
qed

text \<open>
  C10. With an empty node list the run prints the (empty) audit of the scores and then
  \<open>max\<close> raises \<^verbatim>\<open>ValueError\<close>, which ends the process: the result is not the clean
  return of the "no node available" exit, that message is not printed, and no call to
  the provider is made (the only event is the \<^verbatim>\<open>print\<close>).
\<close>

theorem main_empty_nodes:
  assumes "nodes raw = []"
  shows "main ip_address net raw w
      = (Inl ValueError, w\<lparr>trace := trace w @ [Print (Tested [])]\<rparr>)"
  using assms by (simp add: main_def read_config_def check_nodes_def py_max_def emit_def)

theorem main_empty_nodes_witness:
  "main (\<lambda>h. False) net_down (scenario_config\<lparr>nodes := []\<rparr>) world0
     = (Inl ValueError, world0\<lparr>trace := [Print (Tested [])]\<rparr>)"
  using main_empty_nodes [of "scenario_config\<lparr>nodes := []\<rparr>" "\<lambda>h. False" net_down world0]
  by (simp add: world0_def)

subsection \<open>Reconciliation\<close>

lemma update_record_existing:
  assumes z: "zones (cf w) zid = Inr (Some zname)"
    and l: "filter (matching zid (concat_domain [''_minecraft._tcp'', sub, zname]) ''SRV'')
              (records (cf w)) = r # rs"
  shows "update_record zid sub h p w =
     (Inr (),
      w\<lparr>trace := trace w @
          [Zones_get zid,
           Print (Updating (concat_domain [''_minecraft._tcp'', sub, zname]) h p),
           Records_list zid (concat_domain [''_minecraft._tcp'', sub, zname]) ''SRV'' 1,
           Records_update (rec_id r) zid (concat_domain [''_minecraft._tcp'', sub, zname])
             \<lparr>target = h, srv_port = p, priority = 0, weight = 0\<rparr> ''SRV'',
           Print (Updated (concat_domain [''_minecraft._tcp'', sub, zname]))],
        cf := (cf w)\<lparr>records :=
          map (overwrite (rec_id r) zid (concat_domain [''_minecraft._tcp'', sub, zname])
                 \<lparr>target = h, srv_port = p, priority = 0, weight = 0\<rparr> ''SRV'')
              (records (cf w))\<rparr>\<rparr>)"
proof -
  have "r \<in> set (filter (matching zid (concat_domain [''_minecraft._tcp'', sub, zname]) ''SRV'')
              (records (cf w)))"
    using l by simp
  then have "r \<in> set (records (cf w))" and "rec_zone r = zid"
    by (simp_all add: matching_def)
  then have ex: "\<exists>x\<in>set (records (cf w)). rec_id x = rec_id r \<and> rec_zone x = zid"
    by blast
  show ?thesis
    using z l ex
    by (simp add: update_record_def zones_get_def dns_records_list_def dns_records_update_def
        emit_def Let_def)
qed

lemma update_record_absent:
  assumes z: "zones (cf w) zid = Inr (Some zname)"
    and l: "filter (matching zid (concat_domain [''_minecraft._tcp'', sub, zname]) ''SRV'')
              (records (cf w)) = []"
  shows "update_record zid sub h p w =
     (Inr (),
      w\<lparr>trace := trace w @
          [Zones_get zid,
           Print (Updating (concat_domain [''_minecraft._tcp'', sub, zname]) h p),
           Records_list zid (concat_domain [''_minecraft._tcp'', sub, zname]) ''SRV'' 1,
           Records_create zid (concat_domain [''_minecraft._tcp'', sub, zname])
             \<lparr>target = h, srv_port = p, priority = 0, weight = 0\<rparr> ''SRV'',
           Print (Updated (concat_domain [''_minecraft._tcp'', sub, zname]))],
        cf := (cf w)\<lparr>records := records (cf w) @
            [\<lparr>rec_id = next_id (cf w), rec_zone = zid,
              rec_name = concat_domain [''_minecraft._tcp'', sub, zname], rec_type = ''SRV'',
              rec_data = \<lparr>target = h, srv_port = p, priority = 0, weight = 0\<rparr>\<rparr>],
          next_id := Suc (next_id (cf w))\<rparr>\<rparr>)"
  using z l
  by (simp add: update_record_def zones_get_def dns_records_list_def dns_records_create_def
      emit_def Let_def)

lemma overwrite_twice:
  "overwrite i zid name data ty (overwrite i zid name data ty r) = overwrite i zid name data ty r"
  by (simp add: overwrite_def)

lemma first_match_after_overwrite:
  assumes "filter (matching zid name ty) rs = r # rest"
  shows "\<exists>r' rest'. filter (matching zid name ty) (map (overwrite (rec_id r) zid name data ty) rs)
            = r' # rest' \<and> rec_id r' = rec_id r \<and> rec_data r' = data"
  using assms
proof (induction rs)
  case Nil
  then show ?case by simp
next
  case (Cons x rs)
  show ?case
  proof (cases "rec_id x = rec_id r \<and> rec_zone x = zid")
    case True
    then show ?thesis
      by (simp add: overwrite_def matching_def)
  next
    case False
    then have o: "overwrite (rec_id r) zid name data ty x = x"
      by (auto simp add: overwrite_def)
    show ?thesis
    proof (cases "matching zid name ty x")
      case True
      with Cons.prems have "x = r" by simp
      with False True show ?thesis by (simp add: matching_def)
    next
      case m: False
      with Cons.prems have "filter (matching zid name ty) rs = r # rest" by simp
      from Cons.IH [OF this] show ?thesis
        using o m by simp
    qed
  qed
qed


lemma overwrite_other:
  assumes "rec_id r \<noteq> i"
  shows "overwrite i zid name data ty r = r"
  using assms by (simp add: overwrite_def)

lemma update_record_again_existing:
  assumes z: "zones (cf w) zid = Inr (Some zname)"
    and l: "filter (matching zid (concat_domain [''_minecraft._tcp'', sub, zname]) ''SRV'')
              (records (cf w)) = r # rs"
  shows "update_record zid sub h p (snd (update_record zid sub h p w)) =
     (Inr (),
      (snd (update_record zid sub h p w))
       \<lparr>trace := trace (snd (update_record zid sub h p w)) @
          [Zones_get zid,
           Print (Updating (concat_domain [''_minecraft._tcp'', sub, zname]) h p),
           Records_list zid (concat_domain [''_minecraft._tcp'', sub, zname]) ''SRV'' 1,
           Records_update (rec_id r) zid (concat_domain [''_minecraft._tcp'', sub, zname])
             \<lparr>target = h, srv_port = p, priority = 0, weight = 0\<rparr> ''SRV'',
           Print (Updated (concat_domain [''_minecraft._tcp'', sub, zname]))]\<rparr>)"
proof -
  let ?fqdn = "concat_domain [''_minecraft._tcp'', sub, zname]"
  let ?data = "\<lparr>target = h, srv_port = p, priority = 0, weight = 0\<rparr>"
  let ?w1 = "snd (update_record zid sub h p w)"
  have c1: "cf ?w1 = (cf w)\<lparr>records := map (overwrite (rec_id r) zid ?fqdn ?data ''SRV'')
              (records (cf w))\<rparr>"
    by (simp add: update_record_existing [OF z l])
  from first_match_after_overwrite [OF l, of ?data] obtain r' rest' where
    l1: "filter (matching zid ?fqdn ''SRV'')
           (map (overwrite (rec_id r) zid ?fqdn ?data ''SRV'') (records (cf w))) = r' # rest'"
    and id: "rec_id r' = rec_id r"
    by blast
  have z1: "zones (cf ?w1) zid = Inr (Some zname)"
    using z by (simp add: c1)
  have l1': "filter (matching zid ?fqdn ''SRV'') (records (cf ?w1)) = r' # rest'"
    using l1 by (simp add: c1)
  have same: "(cf ?w1)\<lparr>records := map (overwrite (rec_id r') zid ?fqdn ?data ''SRV'')
              (records (cf ?w1))\<rparr> = cf ?w1"
    by (simp add: c1 id overwrite_twice comp_def)
  note e = update_record_existing [OF z1 l1', of h p, unfolded same]
  show ?thesis
    using e by (simp add: id)
qed

lemma update_record_again_absent:
  assumes z: "zones (cf w) zid = Inr (Some zname)"
    and l: "filter (matching zid (concat_domain [''_minecraft._tcp'', sub, zname]) ''SRV'')
              (records (cf w)) = []"
    and fresh: "\<forall>r\<in>set (records (cf w)). rec_id r \<noteq> next_id (cf w)"
  shows "update_record zid sub h p (snd (update_record zid sub h p w)) =
     (Inr (),
      (snd (update_record zid sub h p w))
       \<lparr>trace := trace (snd (update_record zid sub h p w)) @
          [Zones_get zid,
           Print (Updating (concat_domain [''_minecraft._tcp'', sub, zname]) h p),
           Records_list zid (concat_domain [''_minecraft._tcp'', sub, zname]) ''SRV'' 1,
           Records_update (next_id (cf w)) zid (concat_domain [''_minecraft._tcp'', sub, zname])
             \<lparr>target = h, srv_port = p, priority = 0, weight = 0\<rparr> ''SRV'',
           Print (Updated (concat_domain [''_minecraft._tcp'', sub, zname]))]\<rparr>)"
proof -
  let ?fqdn = "concat_domain [''_minecraft._tcp'', sub, zname]"
  let ?data = "\<lparr>target = h, srv_port = p, priority = 0, weight = 0\<rparr>"
  let ?w1 = "snd (update_record zid sub h p w)"
  let ?new = "\<lparr>rec_id = next_id (cf w), rec_zone = zid, rec_name = ?fqdn, rec_type = ''SRV'',
               rec_data = ?data\<rparr>"
  have c1: "cf ?w1 = (cf w)\<lparr>records := records (cf w) @ [?new],
              next_id := Suc (next_id (cf w))\<rparr>"
    by (simp add: update_record_absent [OF z l])
  have z1: "zones (cf ?w1) zid = Inr (Some zname)"
    using z by (simp add: c1)
  have l1: "filter (matching zid ?fqdn ''SRV'') (records (cf ?w1)) = ?new # []"
    using l by (simp add: c1 matching_def)
  have old: "map (overwrite (next_id (cf w)) zid ?fqdn ?data ''SRV'') (records (cf w))
      = records (cf w)"
    using fresh by (simp add: overwrite_other map_idI)
  have same: "(cf ?w1)\<lparr>records := map (overwrite (rec_id ?new) zid ?fqdn ?data ''SRV'')
              (records (cf ?w1))\<rparr> = cf ?w1"
    using old by (simp add: c1 overwrite_def)
  have id: "rec_id ?new = next_id (cf w)"
    by simp
  note e = update_record_existing [OF z1 l1, of h p, unfolded same]
  show ?thesis
    using e by (simp add: id)
qed


text \<open>
  C3. A call of \<open>update_record\<close> for a zone the provider knows, in a store whose next
  identity is not in use: it returns normally. When the listing for the exact name and
  type SRV returns a record, the only mutation issued is one update of that record's
  identity (no create); when the listing is empty, the only mutation is one create. After
  the call the first record listed under the name carries the data
  \<open>{target: host, port: port, priority: 0, weight: 0}\<close>. A second call with the same arguments
  returns normally and leaves the provider's state as the first call left it; after a
  create, its only mutation is an update of the record just created.
\<close>

theorem update_record_create_or_update:
  fixes w :: world and zid sub h zname :: string and p :: int
  defines "fqdn \<equiv> concat_domain [''_minecraft._tcp'', sub, zname]"
    and "data \<equiv> \<lparr>target = h, srv_port = p, priority = 0, weight = 0\<rparr>"
    and "w1 \<equiv> snd (update_record zid sub h p w)"
  defines "w2 \<equiv> snd (update_record zid sub h p w1)"
  assumes zone: "zones (cf w) zid = Inr (Some zname)"
    and fresh: "\<forall>r\<in>set (records (cf w)). rec_id r \<noteq> next_id (cf w)"
  shows "fst (update_record zid sub h p w) = Inr ()
    \<and> (\<forall>r rest. fst (dns_records_list zid fqdn ''SRV'' 1 w) = Inr (r # rest) \<longrightarrow>
          filter dns_mutation (events_since w w1) = [Records_update (rec_id r) zid fqdn data ''SRV''])
    \<and> (fst (dns_records_list zid fqdn ''SRV'' 1 w) = Inr [] \<longrightarrow>
          filter dns_mutation (events_since w w1) = [Records_create zid fqdn data ''SRV'']
        \<and> filter dns_mutation (events_since w1 w2)
            = [Records_update (next_id (cf w)) zid fqdn data ''SRV''])
    \<and> (\<exists>r rest. filter (matching zid fqdn ''SRV'') (records (cf w1)) = r # rest
          \<and> rec_data r = data)
    \<and> fst (update_record zid sub h p w1) = Inr ()
    \<and> cf w2 = cf w1"
proof (cases "filter (matching zid fqdn ''SRV'') (records (cf w))")
  case Nil
  note l = Nil [unfolded fqdn_def]
  note a = update_record_absent [OF zone l, of h p]
  note b = update_record_again_absent [OF zone l fresh, of h p]
  have c1: "fst (update_record zid sub h p w) = Inr ()"
    by (simp add: a)
  have c2: "\<forall>r rest. fst (dns_records_list zid fqdn ''SRV'' 1 w) = Inr (r # rest) \<longrightarrow>
          filter dns_mutation (events_since w w1) = [Records_update (rec_id r) zid fqdn data ''SRV'']"
    using Nil by (simp add: dns_records_list_def)
  have c3a: "filter dns_mutation (events_since w w1) = [Records_create zid fqdn data ''SRV'']"
    by (simp add: w1_def a events_since_def fqdn_def data_def)
  have c3b: "filter dns_mutation (events_since w1 w2)
            = [Records_update (next_id (cf w)) zid fqdn data ''SRV'']"
    by (simp add: w2_def w1_def b events_since_def fqdn_def data_def)
  have c4: "\<exists>r rest. filter (matching zid fqdn ''SRV'') (records (cf w1)) = r # rest
          \<and> rec_data r = data"
    using l by (simp add: w1_def a fqdn_def data_def matching_def)
  have c5: "fst (update_record zid sub h p w1) = Inr ()"
    by (simp add: w1_def b)
  have c6: "cf w2 = cf w1"
    by (simp add: w2_def w1_def b)
  from c1 c2 c3a c3b c4 c5 c6 show ?thesis by blast
next
  case (Cons r0 rs)
  note l = Cons [unfolded fqdn_def]
  note a = update_record_existing [OF zone l, of h p]
  note b = update_record_again_existing [OF zone l, of h p]
  have c1: "fst (update_record zid sub h p w) = Inr ()"
    by (simp add: a)
  have c2: "\<forall>r rest. fst (dns_records_list zid fqdn ''SRV'' 1 w) = Inr (r # rest) \<longrightarrow>
          filter dns_mutation (events_since w w1) = [Records_update (rec_id r) zid fqdn data ''SRV'']"
    using Cons by (simp add: dns_records_list_def w1_def a events_since_def fqdn_def data_def)
  have c3: "fst (dns_records_list zid fqdn ''SRV'' 1 w) \<noteq> Inr []"
    using Cons by (simp add: dns_records_list_def)
  from first_match_after_overwrite [OF l, of "\<lparr>target = h, srv_port = p, priority = 0, weight = 0\<rparr>"]
  have c4: "\<exists>r rest. filter (matching zid fqdn ''SRV'') (records (cf w1)) = r # rest
          \<and> rec_data r = data"
    by (simp add: w1_def a fqdn_def data_def) blast
  have c5: "fst (update_record zid sub h p w1) = Inr ()"
    by (simp add: w1_def b)
  have c6: "cf w2 = cf w1"
    by (simp add: w2_def w1_def b)
  from c1 c2 c3 c4 c5 c6 show ?thesis by blast
qed

theorem update_record_create_or_update_witness:
  "filter dns_mutation
      (events_since world0 (snd (update_record ''z1'' ''mc'' ''a.example.com'' 25565 world0)))
     = [Records_create ''z1'' ''_minecraft._tcp.mc.example.com''
         \<lparr>target = ''a.example.com'', srv_port = 25565, priority = 0, weight = 0\<rparr> ''SRV'']
   \<and> filter dns_mutation
      (events_since (snd (update_record ''z1'' ''mc'' ''a.example.com'' 25565 world0))
         (snd (update_record ''z1'' ''mc'' ''a.example.com'' 25565
            (snd (update_record ''z1'' ''mc'' ''a.example.com'' 25565 world0)))))
     = [Records_update 0 ''z1'' ''_minecraft._tcp.mc.example.com''
         \<lparr>target = ''a.example.com'', srv_port = 25565, priority = 0, weight = 0\<rparr> ''SRV'']
   \<and> cf (snd (update_record ''z1'' ''mc'' ''a.example.com'' 25565
            (snd (update_record ''z1'' ''mc'' ''a.example.com'' 25565 world0))))
     = cf (snd (update_record ''z1'' ''mc'' ''a.example.com'' 25565 world0))"
proof -
  have z: "zones (cf world0) ''z1'' = Inr (Some ''example.com'')"
    by (simp add: world0_def)
  have f: "\<forall>r\<in>set (records (cf world0)). rec_id r \<noteq> next_id (cf world0)"
    by (simp add: world0_def)
  have l: "fst (dns_records_list ''z1'' (concat_domain [''_minecraft._tcp'', ''mc'', ''example.com''])
             ''SRV'' 1 world0) = Inr []"
    by (simp add: dns_records_list_def world0_def)
  have n: "concat_domain [''_minecraft._tcp'', ''mc'', ''example.com'']
      = ''_minecraft._tcp.mc.example.com''"
    by (simp add: concat_domain_def removesuffix_def)
  have i: "next_id (cf world0) = 0"
    by (simp add: world0_def)
  show ?thesis
    using update_record_create_or_update [OF z f, of "''mc''" "''a.example.com''" 25565] l
    unfolding n i by blast
qed

subsection \<open>Configuration validation\<close>

lemma host_failures:
  "concat (map (\<lambda>n. case check_host ip_address (host n) of
                      Inl (AssertionError m) \<Rightarrow> [m] | _ \<Rightarrow> []) ns) \<noteq> []
   \<longleftrightarrow> (\<exists>n\<in>set ns. ip_address (host n))"
  by (induction ns) (auto simp add: check_host_def)

lemma read_config_result:
  "read_config ip_address raw =
     (if \<exists>n\<in>set (nodes raw). ip_address (host n)
      then Inl (ValidationError (concat (map (\<lambda>n. case check_host ip_address (host n) of
                      Inl (AssertionError m) \<Rightarrow> [m] | _ \<Rightarrow> []) (nodes raw))))
      else if distinct (map subdomain (nodes raw)) then Inr raw
      else Inl (ValidationError [''conflict subdomains found.'']))"
proof -
  have d: "card (set (map subdomain (nodes raw))) = length (map subdomain (nodes raw))
      \<longleftrightarrow> distinct (map subdomain (nodes raw))"
    by (metis card_distinct distinct_card)
  show ?thesis
    using d host_failures [of ip_address "nodes raw"]
    by (simp add: read_config_def check_nodes_def Let_def del: set_map)
qed

text \<open>
  C9. Validation fails whenever two nodes share a subdomain or the parser accepts a
  node's host as an IP literal, and the run then ends with that error before any event
  (the world is unchanged, so no probe and no provider call). A configuration that
  passes validation is returned as it is, has pairwise distinct subdomains and no host
  that the parser accepts. This holds for every parser \<open>ip_address\<close>; Python's accepts
  "127.0.0.1" and "::1".
\<close>

theorem read_config_rejects:
  "((\<not> distinct (map subdomain (nodes raw)) \<or> (\<exists>n\<in>set (nodes raw). ip_address (host n)))
      \<longrightarrow> (\<exists>msgs. read_config ip_address raw = Inl (ValidationError msgs)
              \<and> main ip_address net raw w = (Inl (ValidationError msgs), w)))
   \<and> (\<forall>config. read_config ip_address raw = Inr config
      \<longrightarrow> config = raw \<and> distinct (map subdomain (nodes config))
          \<and> (\<forall>n\<in>set (nodes config). \<not> ip_address (host n)))"
proof -
  have m: "main ip_address net raw w = (Inl e, w)" if "read_config ip_address raw = Inl e" for e
    using that by (simp add: main_def)
  have a: "(\<not> distinct (map subdomain (nodes raw)) \<or> (\<exists>n\<in>set (nodes raw). ip_address (host n)))
      \<longrightarrow> (\<exists>msgs. read_config ip_address raw = Inl (ValidationError msgs))"
    by (simp add: read_config_result)
  have b: "\<forall>config. read_config ip_address raw = Inr config
      \<longrightarrow> config = raw \<and> distinct (map subdomain (nodes config))
          \<and> (\<forall>n\<in>set (nodes config). \<not> ip_address (host n))"
    by (auto simp add: read_config_result split: if_splits)
  from a b m show ?thesis by blast
qed

theorem read_config_rejects_witness:
  "(\<exists>msgs. read_config literal_hosts (scenario_config\<lparr>nodes := [scenario_a, scenario_a]\<rparr>)
       = Inl (ValidationError msgs))
   \<and> (\<exists>msgs. main literal_hosts scenario_net
         (scenario_config\<lparr>nodes := [scenario_a\<lparr>host := ''127.0.0.1''\<rparr>]\<rparr>) world0
       = (Inl (ValidationError msgs), world0))
   \<and> (\<exists>msgs. main literal_hosts scenario_net
         (scenario_config\<lparr>nodes := [scenario_a, scenario_b\<lparr>host := ''::1''\<rparr>]\<rparr>) world0
       = (Inl (ValidationError msgs), world0))
   \<and> read_config literal_hosts scenario_config = Inr scenario_config
   \<and> distinct (map subdomain (nodes scenario_config))"
proof -
  have a: "\<not> distinct (map subdomain (nodes (scenario_config\<lparr>nodes := [scenario_a, scenario_a]\<rparr>)))"
    by simp
  have b: "\<exists>n\<in>set (nodes (scenario_config\<lparr>nodes := [scenario_a\<lparr>host := ''127.0.0.1''\<rparr>]\<rparr>)).
             literal_hosts (host n)"
    by (simp add: literal_hosts_def)
  have c: "\<exists>n\<in>set (nodes (scenario_config\<lparr>nodes := [scenario_a, scenario_b\<lparr>host := ''::1''\<rparr>]\<rparr>)).
             literal_hosts (host n)"
    by (simp add: literal_hosts_def)
  have d: "read_config literal_hosts scenario_config = Inr scenario_config"
    by (simp add: read_config_def check_host_def check_nodes_def scenario_config_def
      scenario_a_def scenario_b_def literal_hosts_def)
  from a read_config_rejects [of "scenario_config\<lparr>nodes := [scenario_a, scenario_a]\<rparr>" literal_hosts]
  have a': "\<exists>msgs. read_config literal_hosts (scenario_config\<lparr>nodes := [scenario_a, scenario_a]\<rparr>)
       = Inl (ValidationError msgs)"
    by blast
  from b read_config_rejects
    [of "scenario_config\<lparr>nodes := [scenario_a\<lparr>host := ''127.0.0.1''\<rparr>]\<rparr>" literal_hosts
        scenario_net world0]
  have b': "\<exists>msgs. main literal_hosts scenario_net
         (scenario_config\<lparr>nodes := [scenario_a\<lparr>host := ''127.0.0.1''\<rparr>]\<rparr>) world0
       = (Inl (ValidationError msgs), world0)"
    by blast
  from c read_config_rejects
    [of "scenario_config\<lparr>nodes := [scenario_a, scenario_b\<lparr>host := ''::1''\<rparr>]\<rparr>" literal_hosts
        scenario_net world0]
  have c': "\<exists>msgs. main literal_hosts scenario_net
         (scenario_config\<lparr>nodes := [scenario_a, scenario_b\<lparr>host := ''::1''\<rparr>]\<rparr>) world0
       = (Inl (ValidationError msgs), world0)"
    by blast
  from d read_config_rejects [of scenario_config literal_hosts]
  have d': "distinct (map subdomain (nodes scenario_config))"
    by blast
  from a' b' c' d d' show ?thesis by blast
qed

subsection \<open>Name construction\<close>

lemma doubled_sep_append:
  "doubled_sep (xs @ ys) \<longleftrightarrow>
     doubled_sep xs \<or> doubled_sep ys
     \<or> (xs \<noteq> [] \<and> ys \<noteq> [] \<and> last xs = CHR ''.'' \<and> hd ys = CHR ''.'')"
proof (induction xs)
  case Nil
  show ?case by simp
next
  case (Cons a xs)
  show ?case
  proof (cases xs)
    case Nil
    then show ?thesis by (cases ys) auto
  next
    case (Cons b cs)
    with Cons.IH show ?thesis by auto
  qed
qed

lemma doubled_sep_dot_Cons:
  "doubled_sep (CHR ''.'' # s) \<longleftrightarrow> (s \<noteq> [] \<and> hd s = CHR ''.'') \<or> doubled_sep s"
  by (cases s) auto

lemma clean_dot_append:
  "clean (p @ ''.'' @ s) \<longleftrightarrow> clean p \<and> clean s"
proof (cases "p = []")
  case True
  then show ?thesis by (simp add: clean_def)
next
  case p: False
  show ?thesis
  proof (cases "s = []")
    case True
    then show ?thesis by (simp add: clean_def)
  next
    case False
    with p show ?thesis
      by (auto simp add: clean_def doubled_sep_append doubled_sep_dot_Cons)
  qed
qed

lemma clean_join:
  assumes "ps \<noteq> []"
  shows "clean (join ''.'' ps) \<longleftrightarrow> (\<forall>p\<in>set ps. clean p)"
  using assms
proof (induction "''.''" ps rule: join.induct)
  case 1
  then show ?case by simp
next
  case (2 p)
  then show ?case by simp
next
  case (3 p q ps)
  then have "clean (join ''.'' (q # ps)) \<longleftrightarrow> (\<forall>r\<in>set (q # ps). clean r)"
    by simp
  then show ?case
    using clean_dot_append [of p "join ''.'' (q # ps)"] by simp
qed

lemma well_formed_dot_append:
  "\<not> doubled_sep (q @ ''.'' @ s) \<and> \<not> dangling_dot (q @ ''.'' @ s)
     \<longleftrightarrow> \<not> doubled_sep q \<and> \<not> dangling_dot q \<and> clean s"
proof (cases "s = []")
  case True
  then show ?thesis by (simp add: clean_def dangling_dot_def)
next
  case False
  then show ?thesis
    by (auto simp add: clean_def dangling_dot_def doubled_sep_append doubled_sep_dot_Cons)
qed

lemma well_formed_join:
  "\<not> doubled_sep (join ''.'' qs) \<and> \<not> dangling_dot (join ''.'' qs)
     \<longleftrightarrow> qs = [] \<or> (\<not> doubled_sep (hd qs) \<and> \<not> dangling_dot (hd qs)
                    \<and> (\<forall>q\<in>set (tl qs). clean q))"
proof (cases qs)
  case Nil
  then show ?thesis by (simp add: dangling_dot_def)
next
  case (Cons q rest)
  show ?thesis
  proof (cases rest)
    case Nil
    with Cons show ?thesis by simp
  next
    case c: (Cons r rs)
    have "clean (join ''.'' (r # rs)) \<longleftrightarrow> (\<forall>p\<in>set (r # rs). clean p)"
      by (rule clean_join) simp
    then show ?thesis
      using well_formed_dot_append [of q "join ''.'' (r # rs)"]
      by (simp add: Cons c)
  qed
qed

lemma removesuffix_dot:
  "removesuffix ''.'' p = (if p \<noteq> [] \<and> last p = CHR ''.'' then butlast p else p)"
proof (cases p rule: rev_cases)
  case Nil
  then show ?thesis by (simp add: removesuffix_def)
next
  case (snoc ys y)
  then show ?thesis by (simp add: removesuffix_def)
qed

text \<open>
  C8, amended. For every tuple of components, \<open>concat_domain\<close> removes one trailing "."
  from each component that has one and joins the results with ".". The result has no
  doubled separator and no dangling dot exactly when the tuple is empty or, after that
  removal, the first component has no two dots in a row and no dot at its end, and every
  later component is non-empty, has no dot at either end and no two dots in a row. In
  particular \<open>concat_domain("a.", "b", "c.")\<close> equals \<open>concat_domain("a", "b", "c")\<close>.
\<close>

theorem concat_domain_clean:
  "concat_domain parts
      = join ''.'' (map (\<lambda>p. if p \<noteq> [] \<and> last p = CHR ''.'' then butlast p else p) parts)
    \<and> ((\<not> doubled_sep (concat_domain parts) \<and> \<not> dangling_dot (concat_domain parts))
        \<longleftrightarrow> (parts = []
             \<or> (\<not> doubled_sep (removesuffix ''.'' (hd parts))
                \<and> \<not> dangling_dot (removesuffix ''.'' (hd parts))
                \<and> (\<forall>p\<in>set (tl parts). clean (removesuffix ''.'' p)))))
    \<and> concat_domain [''a.'', ''b'', ''c.''] = concat_domain [''a'', ''b'', ''c'']"
proof -
  have s: "concat_domain parts
      = join ''.'' (map (\<lambda>p. if p \<noteq> [] \<and> last p = CHR ''.'' then butlast p else p) parts)"
  proof -
    have "removesuffix ''.''
        = (\<lambda>p. if p \<noteq> [] \<and> last p = CHR ''.'' then butlast p else p)"
      by (rule ext) (rule removesuffix_dot)
    then show ?thesis
      by (simp only: concat_domain_def)
  qed
  have w: "(\<not> doubled_sep (concat_domain parts) \<and> \<not> dangling_dot (concat_domain parts))
        \<longleftrightarrow> (parts = []
             \<or> (\<not> doubled_sep (removesuffix ''.'' (hd parts))
                \<and> \<not> dangling_dot (removesuffix ''.'' (hd parts))
                \<and> (\<forall>p\<in>set (tl parts). clean (removesuffix ''.'' p))))"
    using well_formed_join [of "map (removesuffix ''.'') parts"]
    by (cases parts) (simp_all add: concat_domain_def)
  have e: "concat_domain [''a.'', ''b'', ''c.''] = concat_domain [''a'', ''b'', ''c'']"
    by (simp add: concat_domain_def removesuffix_def)
  from s w e show ?thesis
    by blast
qed

theorem concat_domain_clean_witness:
  "\<not> doubled_sep (concat_domain [''_minecraft._tcp'', ''a.mc.'', ''example.com.''])
   \<and> \<not> dangling_dot (concat_domain [''_minecraft._tcp'', ''a.mc.'', ''example.com.''])
   \<and> \<not> doubled_sep (concat_domain ['''', ''b''])
   \<and> \<not> dangling_dot (concat_domain ['''', ''b''])"
proof -
  have a: "\<not> doubled_sep (removesuffix ''.'' (hd [''_minecraft._tcp'', ''a.mc.'', ''example.com.'']))
      \<and> \<not> dangling_dot (removesuffix ''.'' (hd [''_minecraft._tcp'', ''a.mc.'', ''example.com.'']))
      \<and> (\<forall>p\<in>set (tl [''_minecraft._tcp'', ''a.mc.'', ''example.com.'']).
            clean (removesuffix ''.'' p))"
    by (simp add: clean_def dangling_dot_def removesuffix_def)
  have b: "\<not> doubled_sep (removesuffix ''.'' (hd ['''', ''b'']))
      \<and> \<not> dangling_dot (removesuffix ''.'' (hd ['''', ''b'']))
      \<and> (\<forall>p\<in>set (tl ['''', ''b'']). clean (removesuffix ''.'' p))"
    by (simp add: clean_def dangling_dot_def removesuffix_def)
  from a concat_domain_clean [of "[''_minecraft._tcp'', ''a.mc.'', ''example.com.'']"]
  have a': "\<not> doubled_sep (concat_domain [''_minecraft._tcp'', ''a.mc.'', ''example.com.''])
   \<and> \<not> dangling_dot (concat_domain [''_minecraft._tcp'', ''a.mc.'', ''example.com.''])"
    by blast
  from b concat_domain_clean [of "['''', ''b'']"]
  have b': "\<not> doubled_sep (concat_domain ['''', ''b''])
   \<and> \<not> dangling_dot (concat_domain ['''', ''b''])"
    by blast
  from a' b' show ?thesis by blast
qed

text \<open>
  C8 does not hold for every tuple. Only one trailing dot is removed, so a component
  ending in two dots leaves a doubled separator; an empty component in the middle does
  too (an empty base subdomain gives \<open>_minecraft._tcp..example.com\<close>), and an empty last
  component leaves a dangling dot.
\<close>

theorem concat_domain_not_always_clean:
  "concat_domain [''a..'', ''b''] = ''a..b''
   \<and> doubled_sep (concat_domain [''a..'', ''b''])
   \<and> concat_domain [''_minecraft._tcp'', '''', ''example.com''] = ''_minecraft._tcp..example.com''
   \<and> doubled_sep (concat_domain [''_minecraft._tcp'', '''', ''example.com''])
   \<and> concat_domain [''a'', ''''] = ''a.''
   \<and> dangling_dot (concat_domain [''a'', ''''])"
  by (simp add: concat_domain_def removesuffix_def dangling_dot_def)

end
